theory Spec2Isabelle
  imports Main "HOL-Library.Word"
begin

unbundle bit_operations_syntax

section \<open>Data model of the piping layer (package ssh, sshpiper.go)\<close>

type_synonym byte = "8 word"
type_synonym bytes = "byte list"

text \<open>
  Go converts between \<open>string\<close> and \<open>[]byte\<close> byte by byte; an Isabelle \<open>char\<close>
  is one byte.
\<close>

definition string_of_bytes :: "bytes \<Rightarrow> string" where
  "string_of_bytes bs = map (\<lambda>b. char_of (unat b)) bs"

definition bytes_of_string :: "string \<Rightarrow> bytes" where
  "bytes_of_string s = map (\<lambda>c. of_char c) s"

text \<open>
  Every error value the modelled code can return. \<open>parseError n\<close> is the library's
  \<open>parseError(n)\<close>; \<open>Failure\<close> stands for an error made by the transport, the codec
  or an injected collaborator; \<open>EOF\<close> is what a read returns once the peer has sent
  its last packet; \<open>Panic\<close> is a run-time panic of the Go code (index out of range,
  nil dereference).
\<close>

datatype error =
    parseError nat
  | NotPublickeyAuthMsg
  | AlgorithmNotAccepted string
  | UnknownService string
  | AdditionalChallengeFailed
  | PermTooOpen string
  | EOF
  | Failure string
  | Panic string

text \<open>Constants of the SSH protocol used by the file (RFC 4250, 4252).\<close>

definition msgUserAuthRequest :: nat where "msgUserAuthRequest = 50"
definition msgUserAuthSuccess :: byte where "msgUserAuthSuccess = 52"
definition serviceUserAuth :: string where "serviceUserAuth = ''ssh-userauth''"
definition serviceSSH :: string where "serviceSSH = ''ssh-connection''"

record userAuthRequestMsg =
  User :: string
  Service :: string
  Method :: string
  Payload :: bytes

record userAuthFailureMsg =
  Methods :: "string list"
  PartialSuccess :: bool

record userAuthPubKeyOkMsg =
  Algo :: string
  PubKey :: bytes

record publickeyAuthMsg =
  pkUser :: string
  pkService :: string
  pkMethod :: string
  HasSig :: bool
  Algoname :: string
  pkPubKey :: bytes
  Sig :: bytes

record signature =
  Format :: string
  Blob :: bytes

text \<open>
  A \<open>PublicKey\<close> is known to this file through \<open>Type()\<close>, \<open>Marshal()\<close> and
  \<open>Verify\<close>; a \<open>Signer\<close> through \<open>PublicKey()\<close> and \<open>Sign\<close>. The two data
  methods are fields, the two operations belong to the library record below.
\<close>

record publicKey =
  key_Type :: string
  key_Marshal :: bytes

record signer =
  PublicKey :: publicKey
  secret :: bytes

text \<open>
  A transport is a packet connection after key exchange. \<open>incoming\<close> holds the
  results of the coming \<open>readPacket\<close> calls in order (a packet or a read error),
  \<open>wresults\<close> the results of the coming \<open>writePacket\<close> calls (exhausted: the write
  succeeds), \<open>sent\<close> the packets written so far. A peer that has sent its last packet
  has closed: the read returns \<open>EOF\<close>.
\<close>

record transport =
  sessionID :: bytes
  config_Rand :: nat
  incoming :: "(error + bytes) list"
  wresults :: "error option list"
  sent :: "bytes list"

definition readPacket :: "transport \<Rightarrow> (error + bytes) \<times> transport" where
  "readPacket t =
     (case incoming t of
        [] \<Rightarrow> (Inl EOF, t)
      | r # rs \<Rightarrow> (r, t\<lparr>incoming := rs\<rparr>))"

definition writePacket :: "transport \<Rightarrow> bytes \<Rightarrow> error option \<times> transport" where
  "writePacket t p =
     (case wresults t of
        [] \<Rightarrow> (None, t\<lparr>sent := sent t @ [p]\<rparr>)
      | None # ws \<Rightarrow> (None, t\<lparr>wresults := ws, sent := sent t @ [p]\<rparr>)
      | Some e # ws \<Rightarrow> (Some e, t\<lparr>wresults := ws\<rparr>))"

text \<open>
  \<open>net.Conn\<close>: the socket. \<open>closed\<close> counts the calls of \<open>Close\<close> that reached it.
\<close>

record netConn =
  RemoteAddr :: string
  closed :: nat

text \<open>
  \<open>connection\<close> (embedded in \<open>upstream\<close> and \<open>downstream\<close>): the socket, the
  transport built on it by the handshake, and the user name of \<open>sshConn\<close>.
\<close>

record connection =
  conn :: netConn
  transport :: transport
  sshConn_user :: string

record ClientConfig =
  cc_User :: string

record ServerConfig =
  hostKeys :: "signer list"

text \<open>
  Calls that leave the piper, recorded in the order they are made (ghost state).
\<close>

datatype event =
    EvMapPublicKey publicKey
  | EvVerify publicKey bytes signature
  | EvSign signer nat bytes
  | EvAdditionalChallenge bool "error option"
  | EvFindUpstream
  | EvForwarding

record pipedConn =
  upstream :: connection
  downstream :: connection
  calls :: "event list"

text \<open>
  \<open>SSHPiper\<close>: the three injected callbacks. \<open>AdditionalChallenge\<close> may talk to the
  downstream through the prompter it is given, so it returns the downstream transport
  as it left it. Go returns \<open>(value, error)\<close> pairs; where the code tests both
  components the model keeps the pair.
\<close>

record SSHPiper =
  DownstreamConfig :: ServerConfig
  AdditionalChallenge :: "(connection \<Rightarrow> (bool \<times> error option) \<times> transport) option"
  FindUpstream :: "connection \<Rightarrow> error + (netConn \<times> ClientConfig)"
  MapPublicKey :: "connection \<Rightarrow> publicKey \<Rightarrow> signer option \<times> error option"

text \<open>
  The rest of package ssh that sshpiper.go calls (codec, parsers, key operations,
  handshakes, \<open>validateKey\<close>) is not part of the verified file: it is a parameter of
  every definition below.

  \<^item> \<open>Unmarshal_request p m\<close> decodes \<open>p\<close> into the existing message \<open>m\<close> and returns
    the error together with the message as it then is.
  \<^item> \<open>validateKey\<close> works on the upstream transport it is handed.
  \<^item> \<open>forwarding\<close> is the first error that one of the two copiers of \<open>loop\<close> sends on
    the channel.
\<close>

record ssh_lib =
  isAcceptableAlgo :: "string \<Rightarrow> bool"
  parseString :: "bytes \<Rightarrow> (bytes \<times> bytes) option"
  parseSignature :: "bytes \<Rightarrow> (signature \<times> bytes) option"
  ParsePublicKey :: "bytes \<Rightarrow> error + publicKey"
  Verify :: "publicKey \<Rightarrow> bytes \<Rightarrow> signature \<Rightarrow> error option"
  Sign :: "signer \<Rightarrow> nat \<Rightarrow> bytes \<Rightarrow> error + signature"
  buildDataSignedForAuth :: "bytes \<Rightarrow> userAuthRequestMsg \<Rightarrow> bytes \<Rightarrow> bytes \<Rightarrow> bytes"
  validateKey :: "publicKey \<Rightarrow> string \<Rightarrow> transport \<Rightarrow> (bool \<times> error option) \<times> transport"
  Marshal_request :: "userAuthRequestMsg \<Rightarrow> bytes"
  Unmarshal_request :: "bytes \<Rightarrow> userAuthRequestMsg \<Rightarrow> error option \<times> userAuthRequestMsg"
  Marshal_failure :: "userAuthFailureMsg \<Rightarrow> bytes"
  Marshal_pubKeyOk :: "userAuthPubKeyOkMsg \<Rightarrow> bytes"
  Marshal_publickeyAuth :: "publickeyAuthMsg \<Rightarrow> bytes"
  Marshal_signature :: "signature \<Rightarrow> bytes"
  marshalString :: "bytes \<Rightarrow> bytes"
  Marshal_serviceRequest :: "string \<Rightarrow> bytes"
  Unmarshal_serviceAccept :: "bytes \<Rightarrow> error option"
  serverHandshake :: "netConn \<Rightarrow> ServerConfig \<Rightarrow> error + transport"
  clientHandshake :: "netConn \<Rightarrow> string \<Rightarrow> ClientConfig \<Rightarrow> error + (transport \<times> string)"
  forwarding :: "transport \<Rightarrow> transport \<Rightarrow> error"

section \<open>The authentication hook\<close>

definition noneAuthMsg :: "string \<Rightarrow> userAuthRequestMsg" where
  "noneAuthMsg usr = \<lparr>User = usr, Service = serviceSSH, Method = ''none'', Payload = []\<rparr>"

definition parsePublicKeyMsg ::
  "ssh_lib \<Rightarrow> userAuthRequestMsg \<Rightarrow> error + (publicKey \<times> bool \<times> signature option)" where
  "parsePublicKeyMsg L userAuthReq =
     (if Method userAuthReq \<noteq> ''publickey'' then Inl NotPublickeyAuthMsg
      else case Payload userAuthReq of
        [] \<Rightarrow> Inl (parseError msgUserAuthRequest)
      | b # payload \<Rightarrow>
          let isQuery = (b = 0) in
          (case parseString L payload of
             None \<Rightarrow> Inl (parseError msgUserAuthRequest)
           | Some (algoBytes, payload1) \<Rightarrow>
               let algo = string_of_bytes algoBytes in
               if \<not> isAcceptableAlgo L algo then Inl (AlgorithmNotAccepted algo)
               else (case parseString L payload1 of
                  None \<Rightarrow> Inl (parseError msgUserAuthRequest)
                | Some (pubKeyData, payload2) \<Rightarrow>
                    (case ParsePublicKey L pubKeyData of
                       Inl err \<Rightarrow> Inl err
                     | Inr pubKey \<Rightarrow>
                         if isQuery then Inr (pubKey, isQuery, None)
                         else (case parseSignature L payload2 of
                            None \<Rightarrow> Inl (parseError msgUserAuthRequest)
                          | Some (sig, payload3) \<Rightarrow>
                              if length payload3 > 0 then Inl (parseError msgUserAuthRequest)
                              else Inr (pubKey, isQuery, Some sig))))))"

definition validAndAck ::
  "ssh_lib \<Rightarrow> pipedConn \<Rightarrow> publicKey \<Rightarrow> publicKey \<Rightarrow>
     (userAuthRequestMsg option \<times> error option) \<times> pipedConn" where
  "validAndAck L pipe upKey downKey =
     (let usr = sshConn_user (downstream pipe);
          ((ok, err), ut) = validateKey L upKey usr (transport (upstream pipe));
          pipe1 = pipe\<lparr>upstream := (upstream pipe)\<lparr>transport := ut\<rparr>\<rparr>
      in if ok then
           let okMsg = \<lparr>Algo = key_Type downKey, PubKey = key_Marshal downKey\<rparr>;
               (werr, dt) = writePacket (transport (downstream pipe1)) (Marshal_pubKeyOk L okMsg);
               pipe2 = pipe1\<lparr>downstream := (downstream pipe1)\<lparr>transport := dt\<rparr>\<rparr>
           in if werr \<noteq> None then ((None, werr), pipe2) else ((None, None), pipe2)
         else ((Some (noneAuthMsg usr), None), pipe1))"

definition checkPublicKey ::
  "ssh_lib \<Rightarrow> pipedConn \<Rightarrow> userAuthRequestMsg \<Rightarrow> publicKey \<Rightarrow> signature \<Rightarrow>
     (bool \<times> error option) \<times> pipedConn" where
  "checkPublicKey L pipe msg pubkey sig =
     (if \<not> isAcceptableAlgo L (Format sig) then ((False, None), pipe)
      else
        let signedData = buildDataSignedForAuth L (sessionID (transport (downstream pipe))) msg
                           (bytes_of_string (key_Type pubkey)) (key_Marshal pubkey);
            pipe1 = pipe\<lparr>calls := calls pipe @ [EvVerify pubkey signedData sig]\<rparr>
        in if Verify L pubkey signedData sig \<noteq> None then ((False, None), pipe1)
           else ((True, None), pipe1))"

definition signAgain ::
  "ssh_lib \<Rightarrow> pipedConn \<Rightarrow> userAuthRequestMsg \<Rightarrow> signer \<Rightarrow> publicKey \<Rightarrow>
     (userAuthRequestMsg option \<times> error option) \<times> pipedConn" where
  "signAgain L pipe msg signr downKey =
     (let usr = sshConn_user (downstream pipe);
          rand = config_Rand (transport (upstream pipe));
          session = sessionID (transport (upstream pipe));
          upKey = PublicKey signr;
          upKeyData = key_Marshal upKey;
          signedData = buildDataSignedForAuth L session
                         \<lparr>User = usr, Service = serviceSSH, Method = ''publickey'', Payload = []\<rparr>
                         (bytes_of_string (key_Type upKey)) upKeyData;
          pipe1 = pipe\<lparr>calls := calls pipe @ [EvSign signr rand signedData]\<rparr>
      in case Sign L signr rand signedData of
           Inl err \<Rightarrow> ((None, Some err), pipe1)
         | Inr sign \<Rightarrow>
             let s = Marshal_signature L sign;
                 sig = marshalString L s;
                 pubkeyMsg = \<lparr>pkUser = usr, pkService = serviceSSH, pkMethod = ''publickey'',
                              HasSig = True, Algoname = key_Type upKey, pkPubKey = upKeyData,
                              Sig = sig\<rparr>
             in ((Some (snd (Unmarshal_request L (Marshal_publickeyAuth L pubkeyMsg) msg)), None),
                 pipe1))"

text \<open>
  The closure \<open>p.processAuthMsg\<close> built in \<open>Serve\<close>. In the branch of a signed
  request the source declares a second \<open>err\<close> (\<open>ok, err := p.checkPublicKey\<close>); the
  assignment \<open>msg, err = p.signAgain\<close> writes that inner variable (here \<open>err2\<close>,
  then \<open>err2'\<close>), and the test after the \<open>if\<close>/\<open>else\<close> reads the outer one, here
  \<open>err\<close>.
\<close>

definition processAuthMsg ::
  "ssh_lib \<Rightarrow> SSHPiper \<Rightarrow> pipedConn \<Rightarrow> userAuthRequestMsg \<Rightarrow>
     (userAuthRequestMsg option \<times> error option) \<times> pipedConn" where
  "processAuthMsg L piper p msg =
     (if Method msg \<noteq> ''publickey'' then ((Some msg, None), p)
      else
        let usr = User msg in
        case parsePublicKeyMsg L msg of
          Inl err0 \<Rightarrow> ((None, Some err0), p)
        | Inr (downKey, isQuery, sig) \<Rightarrow>
            let (signr_opt, err) = MapPublicKey piper (downstream p) downKey;
                p1 = p\<lparr>calls := calls p @ [EvMapPublicKey downKey]\<rparr>
            in (case signr_opt of
                  None \<Rightarrow> ((Some (noneAuthMsg usr), None), p1)
                | Some signr \<Rightarrow>
                    if err \<noteq> None then ((Some (noneAuthMsg usr), None), p1)
                    else
                      let upKey = PublicKey signr in
                      if isQuery then
                        (let ((msg1, err1), p2) = validAndAck L p1 upKey downKey
                         in if err1 \<noteq> None then ((None, err1), p2) else ((msg1, None), p2))
                      else
                        (case sig of
                           None \<Rightarrow> ((None, Some (Panic ''nil pointer dereference'')), p1)
                         | Some sg \<Rightarrow>
                             let ((ok, err2), p2) = checkPublicKey L p1 msg downKey sg
                             in if err2 \<noteq> None then ((None, err2), p2)
                                else if \<not> ok then ((Some (noneAuthMsg usr), None), p2)
                                else
                                  let ((msg1, err2'), p3) = signAgain L p2 msg signr downKey
                                  in if err \<noteq> None then ((None, err), p3)
                                     else ((msg1, None), p3))))"

section \<open>The authentication pipe\<close>

definition zero_request :: userAuthRequestMsg where
  "zero_request = \<lparr>User = [], Service = [], Method = [], Payload = []\<rparr>"

definition nextAuthMsg ::
  "ssh_lib \<Rightarrow> connection \<Rightarrow> (error + userAuthRequestMsg) \<times> connection" where
  "nextAuthMsg L d =
     (case readPacket (transport d) of
        (Inl err, t) \<Rightarrow> (Inl err, d\<lparr>transport := t\<rparr>)
      | (Inr packet, t) \<Rightarrow>
          (case Unmarshal_request L packet zero_request of
             (Some err, _) \<Rightarrow> (Inl err, d\<lparr>transport := t\<rparr>)
           | (None, userAuthReq) \<Rightarrow>
               if Service userAuthReq \<noteq> serviceSSH
               then (Inl (UnknownService (Service userAuthReq)), d\<lparr>transport := t\<rparr>)
               else (Inr userAuthReq, d\<lparr>transport := t\<rparr>)))"

definition sendAuthReq :: "ssh_lib \<Rightarrow> connection \<Rightarrow> error option \<times> connection" where
  "sendAuthReq L u =
     (case writePacket (transport u) (Marshal_serviceRequest L serviceUserAuth) of
        (Some err, t) \<Rightarrow> (Some err, u\<lparr>transport := t\<rparr>)
      | (None, t) \<Rightarrow>
          (case readPacket t of
             (Inl err, t1) \<Rightarrow> (Some err, u\<lparr>transport := t1\<rparr>)
           | (Inr packet, t1) \<Rightarrow> (Unmarshal_serviceAccept L packet, u\<lparr>transport := t1\<rparr>)))"

text \<open>
  The block \<open>if userAuthMsg != nil { ... }\<close> of \<open>pipeAuth\<close>. The result \<open>Some r\<close>
  says that \<open>pipeAuth\<close> returns \<open>r\<close> from inside the block, \<open>None\<close> that control
  leaves the block and goes on to read the next downstream request. Indexing an empty
  reply packet panics.
\<close>

definition pipeAuth_relay ::
  "ssh_lib \<Rightarrow> pipedConn \<Rightarrow> userAuthRequestMsg option \<Rightarrow> error option option \<times> pipedConn" where
  "pipeAuth_relay L pipe m =
     (case m of
        None \<Rightarrow> (None, pipe)
      | Some userAuthMsg \<Rightarrow>
          (case writePacket (transport (upstream pipe)) (Marshal_request L userAuthMsg) of
             (Some err, ut) \<Rightarrow>
               (Some (Some err), pipe\<lparr>upstream := (upstream pipe)\<lparr>transport := ut\<rparr>\<rparr>)
           | (None, ut) \<Rightarrow>
               (case readPacket ut of
                  (Inl err, ut1) \<Rightarrow>
                    (Some (Some err), pipe\<lparr>upstream := (upstream pipe)\<lparr>transport := ut1\<rparr>\<rparr>)
                | (Inr packet, ut1) \<Rightarrow>
                    let pipe1 = pipe\<lparr>upstream := (upstream pipe)\<lparr>transport := ut1\<rparr>\<rparr> in
                    (case packet of
                       [] \<Rightarrow> (Some (Some (Panic ''index out of range'')), pipe1)
                     | b # _ \<Rightarrow>
                         let success = (b = msgUserAuthSuccess) in
                         (case writePacket (transport (downstream pipe1)) packet of
                            (Some err, dt) \<Rightarrow>
                              (Some (Some err),
                               pipe1\<lparr>downstream := (downstream pipe1)\<lparr>transport := dt\<rparr>\<rparr>)
                          | (None, dt) \<Rightarrow>
                              (if success then Some None else None,
                               pipe1\<lparr>downstream := (downstream pipe1)\<lparr>transport := dt\<rparr>\<rparr>))))))"

text \<open>
  One pass through the body of the \<open>for\<close> loop of \<open>pipeAuth\<close>: either the function
  returns, or the loop goes round again with the request just read from the downstream.
\<close>

datatype step = Return "error option" | Next userAuthRequestMsg

definition pipeAuth_body ::
  "ssh_lib \<Rightarrow> SSHPiper \<Rightarrow> pipedConn \<Rightarrow> userAuthRequestMsg \<Rightarrow> step \<times> pipedConn" where
  "pipeAuth_body L piper pipe userAuthMsg =
     (let ((msg, err), pipe1) = processAuthMsg L piper pipe userAuthMsg
      in if err \<noteq> None then (Return err, pipe1)
         else (case pipeAuth_relay L pipe1 msg of
                 (Some r, pipe2) \<Rightarrow> (Return r, pipe2)
               | (None, pipe2) \<Rightarrow>
                   (case nextAuthMsg L (downstream pipe2) of
                      (Inl err1, d) \<Rightarrow> (Return (Some err1), pipe2\<lparr>downstream := d\<rparr>)
                    | (Inr m, d) \<Rightarrow> (Next m, pipe2\<lparr>downstream := d\<rparr>))))"

text \<open>
  Nothing but \<open>nextAuthMsg\<close> reads from the downstream, and a request it returns was
  the first of the downstream's pending packets: the loop of \<open>pipeAuth\<close> ends at the
  latest when the downstream has sent its last packet.
\<close>

lemma writePacket_incoming: "incoming (snd (writePacket t p)) = incoming t"
  by (simp add: writePacket_def split: list.splits option.splits)

lemma writePacket_sessionID: "sessionID (snd (writePacket t p)) = sessionID t"
  by (simp add: writePacket_def split: list.splits option.splits)

lemma writePacket_incoming_eq: "writePacket t p = (r, t') \<Longrightarrow> incoming t' = incoming t"
  using writePacket_incoming [of t p] by simp

lemma validAndAck_down_incoming:
  "incoming (transport (downstream (snd (validAndAck L p upKey downKey)))) = incoming (transport (downstream p))"
  by (auto simp: validAndAck_def Let_def split: prod.splits dest: writePacket_incoming_eq)

lemma checkPublicKey_down: "downstream (snd (checkPublicKey L p msg k sg)) = downstream p"
  by (simp add: checkPublicKey_def Let_def)

lemma signAgain_down: "downstream (snd (signAgain L p msg s k)) = downstream p"
  by (simp add: signAgain_def Let_def split: sum.splits)

lemma processAuthMsg_down_incoming:
  "incoming (transport (downstream (snd (processAuthMsg L piper p msg)))) = incoming (transport (downstream p))"
proof -
  have va: "\<And>q uk dk r q'. validAndAck L q uk dk = (r, q') \<Longrightarrow>
      incoming (transport (downstream q')) = incoming (transport (downstream q))"
    using validAndAck_down_incoming by (metis snd_conv)
  have ck: "\<And>q m k sg r q'. checkPublicKey L q m k sg = (r, q') \<Longrightarrow> downstream q' = downstream q"
    using checkPublicKey_down by (metis snd_conv)
  have sa: "\<And>q m s k r q'. signAgain L q m s k = (r, q') \<Longrightarrow> downstream q' = downstream q"
    using signAgain_down by (metis snd_conv)
  show ?thesis
    by (auto simp: processAuthMsg_def Let_def split: sum.splits prod.splits option.splits dest!: va ck sa)
qed

lemma pipeAuth_relay_down_incoming:
  "incoming (transport (downstream (snd (pipeAuth_relay L p m)))) = incoming (transport (downstream p))"
proof -
  have w: "\<And>t pk r t'. writePacket t pk = (r, t') \<Longrightarrow> incoming t' = incoming t"
    using writePacket_incoming by (metis snd_conv)
  show ?thesis
    by (auto simp: pipeAuth_relay_def Let_def split: option.splits prod.splits sum.splits list.splits dest!: w)
qed

lemma nextAuthMsg_Inr:
  "nextAuthMsg L d = (Inr m, d') \<Longrightarrow>
     \<exists>pkt. incoming (transport d) = Inr pkt # incoming (transport d')"
  by (auto simp: nextAuthMsg_def readPacket_def split: list.splits prod.splits sum.splits option.splits if_splits)

lemma pipeAuth_body_Next:
  assumes "pipeAuth_body L piper p msg = (Next m, p')"
  shows "length (incoming (transport (downstream p'))) < length (incoming (transport (downstream p)))"
proof -
  obtain r p1 where pa: "processAuthMsg L piper p msg = (r, p1)" by (cases "processAuthMsg L piper p msg")
  obtain r2 p2 where pr: "pipeAuth_relay L p1 (fst r) = (r2, p2)" by (cases "pipeAuth_relay L p1 (fst r)")
  have i1: "incoming (transport (downstream p1)) = incoming (transport (downstream p))"
    using processAuthMsg_down_incoming [of L piper p msg] pa by simp
  have i2: "incoming (transport (downstream p2)) = incoming (transport (downstream p1))"
    using pipeAuth_relay_down_incoming [of L p1 "fst r"] pr by simp
  from assms pa pr obtain d where n: "nextAuthMsg L (downstream p2) = (Inr m, d)" and p': "p' = p2\<lparr>downstream := d\<rparr>"
    by (cases r) (auto simp: pipeAuth_body_def split: if_splits option.splits prod.splits sum.splits)
  from nextAuthMsg_Inr [OF n] i1 i2 p' show ?thesis by auto
qed

function pipeAuth_loop::
  "ssh_lib \<Rightarrow> SSHPiper \<Rightarrow> pipedConn \<Rightarrow> userAuthRequestMsg \<Rightarrow> error option \<times> pipedConn" where
  "pipeAuth_loop L piper pipe userAuthMsg =
     (case pipeAuth_body L piper pipe userAuthMsg of
        (Return r, pipe1) \<Rightarrow> (r, pipe1)
      | (Next m, pipe1) \<Rightarrow> pipeAuth_loop L piper pipe1 m)"
  by pat_completeness auto
termination
  by (relation "measure (\<lambda>(L, piper, pipe, m). length (incoming (transport (downstream pipe))))")
     (auto dest: pipeAuth_body_Next [OF sym])

definition pipeAuth ::
  "ssh_lib \<Rightarrow> SSHPiper \<Rightarrow> pipedConn \<Rightarrow> userAuthRequestMsg \<Rightarrow> error option \<times> pipedConn" where
  "pipeAuth L piper pipe initUserAuthMsg =
     (case sendAuthReq L (upstream pipe) of
        (Some err, u) \<Rightarrow> (Some err, pipe\<lparr>upstream := u\<rparr>)
      | (None, u) \<Rightarrow> pipeAuth_loop L piper (pipe\<lparr>upstream := u\<rparr>) initUserAuthMsg)"

section \<open>Closing, the forwarding loop and the entry point\<close>

text \<open>
  \<open>connection.Close\<close> closes the socket of the connection. \<open>mux.conn\<close> is the
  transport of the connection, and closing a transport closes the socket it was built
  on: every one of these calls reaches \<open>net.Conn.Close\<close>.
\<close>

definition Close_netConn :: "netConn \<Rightarrow> netConn" where
  "Close_netConn c = c\<lparr>closed := Suc (closed c)\<rparr>"

definition Close_connection :: "connection \<Rightarrow> connection" where
  "Close_connection c = c\<lparr>conn := Close_netConn (conn c)\<rparr>"

definition Close_pipedConn :: "pipedConn \<Rightarrow> pipedConn" where
  "Close_pipedConn pipe =
     pipe\<lparr>upstream := Close_connection (upstream pipe),
          downstream := Close_connection (downstream pipe)\<rparr>"

text \<open>
  \<open>loop\<close> starts the two copiers, waits for the first error on the channel and
  returns it; the deferred \<open>pipe.Close()\<close> runs on the way out. The packets the
  copiers move are not modelled.
\<close>

definition loop :: "ssh_lib \<Rightarrow> pipedConn \<Rightarrow> error option \<times> pipedConn" where
  "loop L pipe =
     (let pipe1 = pipe\<lparr>calls := calls pipe @ [EvForwarding]\<rparr>;
          err = forwarding L (transport (upstream pipe1)) (transport (downstream pipe1))
      in (Some err, Close_pipedConn pipe1))"

definition newDownstream ::
  "ssh_lib \<Rightarrow> netConn \<Rightarrow> ServerConfig \<Rightarrow> (error \<times> netConn) + connection" where
  "newDownstream L c config =
     (case serverHandshake L c config of
        Inl err \<Rightarrow> Inl (err, Close_netConn c)
      | Inr t \<Rightarrow> Inr \<lparr>conn = c, transport = t, sshConn_user = []\<rparr>)"

definition newUpstream ::
  "ssh_lib \<Rightarrow> netConn \<Rightarrow> string \<Rightarrow> ClientConfig \<Rightarrow> (error \<times> netConn) + connection" where
  "newUpstream L c addr config =
     (case clientHandshake L c addr config of
        Inl err \<Rightarrow> Inl (err, Close_netConn c)
      | Inr (t, usr) \<Rightarrow> Inr \<lparr>conn = c, transport = t, sshConn_user = usr\<rparr>)"

text \<open>
  The coercion loop of \<open>Serve\<close> (the \<open>for\<close> at the top of the additional challenge).
  The request it reads is a variable of the loop body: the one read before the loop is
  not replaced.
\<close>

function coerce :: "ssh_lib \<Rightarrow> connection \<Rightarrow> error option \<times> connection" where
  "coerce L d =
     (case writePacket (transport d)
             (Marshal_failure L \<lparr>Methods = [''keyboard-interactive''], PartialSuccess = False\<rparr>) of
        (Some err, t) \<Rightarrow> (Some err, d\<lparr>transport := t\<rparr>)
      | (None, t) \<Rightarrow>
          (case nextAuthMsg L (d\<lparr>transport := t\<rparr>) of
             (Inl err, d1) \<Rightarrow> (Some err, d1)
           | (Inr userAuthReq, d1) \<Rightarrow>
               if Method userAuthReq = ''keyboard-interactive'' then (None, d1)
               else coerce L d1))"
  by pat_completeness auto
termination
  by (relation "measure (\<lambda>(L, d). length (incoming (transport d)))")
     (auto dest!: nextAuthMsg_Inr [OF sym] writePacket_incoming_eq [OF sym])

declare coerce.simps [simp del]

definition additionalChallenge ::
  "ssh_lib \<Rightarrow> SSHPiper \<Rightarrow> connection \<Rightarrow> error option \<times> connection \<times> event list" where
  "additionalChallenge L piper d =
     (case AdditionalChallenge piper of
        None \<Rightarrow> (None, d, [])
      | Some challenge \<Rightarrow>
          (case coerce L d of
             (Some err, d1) \<Rightarrow> (Some err, d1, [])
           | (None, d1) \<Rightarrow>
               let ((ok, err), t) = challenge d1;
                   d2 = d1\<lparr>transport := t\<rparr>;
                   evs = [EvAdditionalChallenge ok err]
               in if err \<noteq> None then (err, d2, evs)
                  else if \<not> ok then (Some AdditionalChallengeFailed, d2, evs)
                  else (None, d2, evs)))"

text \<open>
  What \<open>Serve\<close> leaves behind: the value it returns, the two sockets (the upstream
  one only if \<open>FindUpstream\<close> supplied it), the transports where the handshake built
  them, and the calls made.
\<close>

record outcome =
  returned :: "error option"
  down_conn :: netConn
  down_transport :: "transport option"
  up_conn :: "netConn option"
  up_transport :: "transport option"
  trace :: "event list"

text \<open>
  \<open>Serve\<close> from \<open>p := &pipedConn{...}\<close> on, inside both deferred closes.
\<close>

definition Serve_piped ::
  "ssh_lib \<Rightarrow> SSHPiper \<Rightarrow> pipedConn \<Rightarrow> userAuthRequestMsg \<Rightarrow> error option \<times> pipedConn" where
  "Serve_piped L piper p userAuthReq =
     (case pipeAuth L piper p userAuthReq of
        (Some err, p1) \<Rightarrow> (Some err, p1)
      | (None, p1) \<Rightarrow> loop L p1)"

text \<open>
  \<open>Serve\<close> from the call of \<open>FindUpstream\<close> on. \<open>defer u.Close()\<close> is registered
  once \<open>newUpstream\<close> has succeeded and runs when the rest has returned.
\<close>

definition Serve_upstream ::
  "ssh_lib \<Rightarrow> SSHPiper \<Rightarrow> connection \<Rightarrow> event list \<Rightarrow> userAuthRequestMsg \<Rightarrow>
     error option \<times> connection \<times> (netConn \<times> transport option) option \<times> event list" where
  "Serve_upstream L piper d evs userAuthReq =
     (case FindUpstream piper d of
        Inl err \<Rightarrow> (Some err, d, None, evs @ [EvFindUpstream])
      | Inr (upconn, upconfig) \<Rightarrow>
          let addr = RemoteAddr upconn in
          (case newUpstream L upconn addr upconfig of
             Inl (err, c) \<Rightarrow> (Some err, d, Some (c, None), evs @ [EvFindUpstream])
           | Inr u \<Rightarrow>
               let p = \<lparr>upstream = u, downstream = d, calls = evs @ [EvFindUpstream]\<rparr>;
                   (r, p1) = Serve_piped L piper p userAuthReq;
                   u1 = Close_connection (upstream p1)
               in (r, downstream p1, Some (conn u1, Some (transport u1)), calls p1)))"

text \<open>
  \<open>Serve\<close> after \<open>defer d.Close()\<close>.
\<close>

definition Serve_downstream ::
  "ssh_lib \<Rightarrow> SSHPiper \<Rightarrow> connection \<Rightarrow>
     error option \<times> connection \<times> (netConn \<times> transport option) option \<times> event list" where
  "Serve_downstream L piper d =
     (case nextAuthMsg L d of
        (Inl err, d1) \<Rightarrow> (Some err, d1, None, [])
      | (Inr userAuthReq, d1) \<Rightarrow>
          let d2 = d1\<lparr>sshConn_user := User userAuthReq\<rparr> in
          (case additionalChallenge L piper d2 of
             (Some err, d3, evs) \<Rightarrow> (Some err, d3, None, evs)
           | (None, d3, evs) \<Rightarrow> Serve_upstream L piper d3 evs userAuthReq))"

definition Serve :: "ssh_lib \<Rightarrow> SSHPiper \<Rightarrow> netConn \<Rightarrow> outcome" where
  "Serve L piper c =
     (case newDownstream L c (DownstreamConfig piper) of
        Inl (err, c1) \<Rightarrow>
          \<lparr>returned = Some err, down_conn = c1, down_transport = None,
           up_conn = None, up_transport = None, trace = []\<rparr>
      | Inr d \<Rightarrow>
          let (r, d1, up, evs) = Serve_downstream L piper d;
              d2 = Close_connection d1
          in \<lparr>returned = r, down_conn = conn d2, down_transport = Some (transport d2),
              up_conn = map_option fst up,
              up_transport = (case up of None \<Rightarrow> None | Some (c1, t) \<Rightarrow> t),
              trace = evs\<rparr>)"

text \<open>
  \<open>write_ok t\<close>: the next \<open>writePacket\<close> on \<open>t\<close> succeeds.
\<close>

definition write_ok :: "transport \<Rightarrow> bool" where
  "write_ok t = (case wresults t of [] \<Rightarrow> True | r # _ \<Rightarrow> r = None)"

text \<open>
  The signed data the piper hands to \<open>Verify\<close> and to \<open>Sign\<close> while it works on the
  request \<open>msg\<close> in the state \<open>p\<close>, and the calls the hook may make: \<open>MapPublicKey\<close>,
  \<open>Verify\<close> and \<open>Sign\<close> with exactly these data.
\<close>

definition verify_blob :: "ssh_lib \<Rightarrow> pipedConn \<Rightarrow> userAuthRequestMsg \<Rightarrow> publicKey \<Rightarrow> bytes" where
  "verify_blob L p msg k =
     buildDataSignedForAuth L (sessionID (transport (downstream p))) msg
       (bytes_of_string (key_Type k)) (key_Marshal k)"

definition resign_blob :: "ssh_lib \<Rightarrow> pipedConn \<Rightarrow> publicKey \<Rightarrow> bytes" where
  "resign_blob L p upKey =
     buildDataSignedForAuth L (sessionID (transport (upstream p)))
       \<lparr>User = sshConn_user (downstream p), Service = serviceSSH,
        Method = ''publickey'', Payload = []\<rparr>
       (bytes_of_string (key_Type upKey)) (key_Marshal upKey)"

definition crypto_event_ok :: "ssh_lib \<Rightarrow> pipedConn \<Rightarrow> userAuthRequestMsg \<Rightarrow> event \<Rightarrow> bool" where
  "crypto_event_ok L p msg ev =
     (case ev of
        EvVerify k d s \<Rightarrow> d = verify_blob L p msg k
      | EvSign signr r d \<Rightarrow> d = resign_blob L p (PublicKey signr)
      | EvMapPublicKey k \<Rightarrow> True
      | _ \<Rightarrow> False)"

text \<open>
  \<open>auth_progress p q\<close>: from \<open>p\<close> to \<open>q\<close> the authentication phase has kept both sockets
  as they were and has only added calls of the hook to the trace.
\<close>

definition is_hook_event :: "event \<Rightarrow> bool" where
  "is_hook_event ev =
     (case ev of EvMapPublicKey k \<Rightarrow> True | EvVerify k d s \<Rightarrow> True | EvSign sr r d \<Rightarrow> True
      | _ \<Rightarrow> False)"

definition auth_progress :: "pipedConn \<Rightarrow> pipedConn \<Rightarrow> bool" where
  "auth_progress p q \<longleftrightarrow>
     conn (upstream q) = conn (upstream p) \<and> conn (downstream q) = conn (downstream p)
     \<and> (\<exists>evs. calls q = calls p @ evs \<and> list_all is_hook_event evs)"

text \<open>
  \<open>pipeAuth_next L piper (p, m) (p', m')\<close>: the pass of the loop of \<open>pipeAuth\<close> that
  starts in the state \<open>p\<close> with the request \<open>m\<close> goes round again, in the state \<open>p'\<close>
  with the request \<open>m'\<close>.
\<close>

definition pipeAuth_next ::
  "ssh_lib \<Rightarrow> SSHPiper \<Rightarrow> pipedConn \<times> userAuthRequestMsg \<Rightarrow> pipedConn \<times> userAuthRequestMsg \<Rightarrow> bool" where
  "pipeAuth_next L piper x y \<longleftrightarrow> pipeAuth_body L piper (fst x) (snd x) = (Next (snd y), fst y)"

text \<open>
  The packet of the coercion loop, and the request that \<open>nextAuthMsg\<close> makes of one
  result of \<open>readPacket\<close> (none when the read, the decoding or the service check fails).
\<close>

definition kbdint_failure :: "ssh_lib \<Rightarrow> bytes" where
  "kbdint_failure L =
     Marshal_failure L \<lparr>Methods = [''keyboard-interactive''], PartialSuccess = False\<rparr>"

definition request_of :: "ssh_lib \<Rightarrow> error + bytes \<Rightarrow> userAuthRequestMsg option" where
  "request_of L r =
     (case r of
        Inl err \<Rightarrow> None
      | Inr packet \<Rightarrow>
          (case Unmarshal_request L packet zero_request of
             (Some err, m) \<Rightarrow> None
           | (None, userAuthReq) \<Rightarrow>
               if Service userAuthReq \<noteq> serviceSSH then None else Some userAuthReq))"

section \<open>The credential resolver (sshpiperd.go)\<close>

text \<open>
  What \<open>sshpiperd\<close> asks of its host: the working directory of the \<open>-w\<close> flag,
  \<open>os.Open\<close> (an opened file answers \<open>Stat\<close> with its mode or an error),
  \<open>ioutil.ReadFile\<close>, \<open>net.Dial\<close>, \<open>strings.TrimSpace\<close>, and the two key parsers of
  package ssh. \<open>Perm\<close> is \<open>FileMode.Perm\<close>, the nine permission bits; \<open>0x100\<close> is
  octal \<open>0400\<close>. Log output is not modelled.
\<close>

type_synonym fileMode = "32 word"

definition Perm :: "fileMode \<Rightarrow> fileMode" where
  "Perm m = m AND 0x1FF"

record osFile =
  Stat :: "error + fileMode"

record host =
  WorkingDir :: string
  os_Open :: "string \<Rightarrow> error + osFile"
  ReadFile :: "string \<Rightarrow> error + bytes"
  net_Dial :: "string \<Rightarrow> string \<Rightarrow> error + netConn"
  TrimSpace :: "string \<Rightarrow> string"
  ParseAuthorizedKey :: "bytes \<Rightarrow> error + (publicKey \<times> bytes)"
  ParsePrivateKey :: "bytes \<Rightarrow> error + signer"

definition UserAuthorizedKeysFile :: string where "UserAuthorizedKeysFile = ''authorized_keys''"
definition UserKeyFile :: string where "UserKeyFile = ''id_rsa''"
definition UserUpstreamFile :: string where "UserUpstreamFile = ''sshpiper_upstream''"

definition userSpecFile :: "host \<Rightarrow> string \<Rightarrow> string \<Rightarrow> string" where
  "userSpecFile H usr file = WorkingDir H @ ''/'' @ usr @ ''/'' @ file"

definition read_userFile :: "host \<Rightarrow> string \<Rightarrow> string \<Rightarrow> error + bytes" where
  "read_userFile H file usr = ReadFile H (userSpecFile H usr file)"

definition check400 :: "host \<Rightarrow> string \<Rightarrow> string \<Rightarrow> error option" where
  "check400 H file usr =
     (let filename = userSpecFile H usr file in
      case os_Open H filename of
        Inl err \<Rightarrow> Some err
      | Inr f \<Rightarrow>
          (case Stat f of
             Inl err \<Rightarrow> Some err
           | Inr mode \<Rightarrow>
               if Perm mode \<noteq> 0x100 then Some (PermTooOpen filename) else None))"

definition findUpstreamFromUserfile :: "host \<Rightarrow> connection \<Rightarrow> error + (netConn \<times> ClientConfig)" where
  "findUpstreamFromUserfile H c =
     (let usr = sshConn_user c in
      case check400 H UserUpstreamFile usr of
        Some err \<Rightarrow> Inl err
      | None \<Rightarrow>
          (case read_userFile H UserUpstreamFile usr of
             Inl err \<Rightarrow> Inl err
           | Inr addr \<Rightarrow>
               let saddr = TrimSpace H (string_of_bytes addr) in
               (case net_Dial H ''tcp'' saddr of
                  Inl err \<Rightarrow> Inl err
                | Inr c1 \<Rightarrow> Inr (c1, \<lparr>cc_User = []\<rparr>))))"

definition loadUserKey :: "host \<Rightarrow> string \<Rightarrow> signer option \<times> error option" where
  "loadUserKey H usr =
     (case check400 H UserKeyFile usr of
        Some err \<Rightarrow> (None, Some err)
      | None \<Rightarrow>
          (case read_userFile H UserKeyFile usr of
             Inl err \<Rightarrow> (None, Some err)
           | Inr privateBytes \<Rightarrow>
               (case ParsePrivateKey H privateBytes of
                  Inl err \<Rightarrow> (None, Some err)
                | Inr private \<Rightarrow> (Some private, None))))"

text \<open>
  The \<open>for len(rest) > 0\<close> loop of \<open>mapPublicKeyFromUserfile\<close>. It ends when
  \<open>ParseAuthorizedKey\<close> consumes input; a run that does not end has no result.
\<close>

partial_function (option) scanAuthorizedKeys ::
  "host \<Rightarrow> string \<Rightarrow> bytes \<Rightarrow> bytes \<Rightarrow> (signer option \<times> error option) option" where
  "scanAuthorizedKeys H usr keydata rest =
     (if length rest > 0 then
        (case ParseAuthorizedKey H rest of
           Inl err \<Rightarrow> Some (None, Some err)
         | Inr (authedPubkey, rest1) \<Rightarrow>
             if key_Marshal authedPubkey = keydata then Some (loadUserKey H usr)
             else scanAuthorizedKeys H usr keydata rest1)
      else Some (None, None))"

definition mapPublicKeyFromUserfile ::
  "host \<Rightarrow> connection \<Rightarrow> publicKey \<Rightarrow> (signer option \<times> error option) option" where
  "mapPublicKeyFromUserfile H c key =
     (let usr = sshConn_user c in
      case check400 H UserAuthorizedKeysFile usr of
        Some err \<Rightarrow> Some (None, Some err)
      | None \<Rightarrow>
          let keydata = key_Marshal key in
          (case read_userFile H UserAuthorizedKeysFile usr of
             Inl err \<Rightarrow> Some (None, Some err)
           | Inr rest \<Rightarrow> scanAuthorizedKeys H usr keydata rest))"

section \<open>A concrete library and piper\<close>

text \<open>
  One instance of the library parameter and of the callbacks, on which the theorems
  below are run: SSH strings with a four-byte length, a codec that knows four request
  packets, keys that sign by prefixing their blob. \<open>sample_lib din uin\<close> lets the
  downstream send the packets \<open>din\<close> and the upstream the packets \<open>uin\<close> after the
  handshakes.
\<close>

definition be32 :: "byte \<Rightarrow> byte \<Rightarrow> byte \<Rightarrow> byte \<Rightarrow> nat" where
  "be32 a b c d = unat a * 16777216 + unat b * 65536 + unat c * 256 + unat d"

definition sample_parseString :: "bytes \<Rightarrow> (bytes \<times> bytes) option" where
  "sample_parseString inp =
     (case inp of
        a # b # c # d # rest \<Rightarrow>
          if length rest < be32 a b c d then None
          else Some (take (be32 a b c d) rest, drop (be32 a b c d) rest)
      | _ \<Rightarrow> None)"

definition sample_parseSignature :: "bytes \<Rightarrow> (signature \<times> bytes) option" where
  "sample_parseSignature inp =
     (case sample_parseString inp of
        None \<Rightarrow> None
      | Some (f, rest) \<Rightarrow>
          (case sample_parseString rest of
             None \<Rightarrow> None
           | Some (b, rest1) \<Rightarrow> Some (\<lparr>Format = string_of_bytes f, Blob = b\<rparr>, rest1)))"

definition sample_validateKey ::
  "publicKey \<Rightarrow> string \<Rightarrow> transport \<Rightarrow> (bool \<times> error option) \<times> transport" where
  "sample_validateKey key usr t =
     (case writePacket t (50 # 0 # key_Marshal key) of
        (Some err, t1) \<Rightarrow> ((False, Some err), t1)
      | (None, t1) \<Rightarrow>
          (case readPacket t1 of
             (Inl err, t2) \<Rightarrow> ((False, Some err), t2)
           | (Inr packet, t2) \<Rightarrow> ((packet = 60 # key_Marshal key, None), t2)))"

definition sample_Unmarshal_request ::
  "bytes \<Rightarrow> userAuthRequestMsg \<Rightarrow> error option \<times> userAuthRequestMsg" where
  "sample_Unmarshal_request p m =
     (if p = [50, 1] then
        (None, \<lparr>User = ''alice'', Service = ''ssh-connection'', Method = ''none'', Payload = []\<rparr>)
      else if p = [50, 2] then
        (None, \<lparr>User = ''alice'', Service = ''ssh-connection'',
                 Method = ''keyboard-interactive'', Payload = []\<rparr>)
      else if p = [50, 3] then
        (None, \<lparr>User = ''alice'', Service = ''ssh-connection'', Method = ''publickey'',
                 Payload = []\<rparr>)
      else if p = [50, 4] then
        (None, \<lparr>User = ''alice'', Service = ''sftp'', Method = ''none'', Payload = []\<rparr>)
      else (Some (parseError 50), m))"

definition sample_lib :: "bytes list \<Rightarrow> bytes list \<Rightarrow> ssh_lib" where
  "sample_lib din uin =
     \<lparr>isAcceptableAlgo = (\<lambda>a. a = ''ssh-rsa'' \<or> a = ''ssh-ed25519''),
      parseString = sample_parseString,
      parseSignature = sample_parseSignature,
      ParsePublicKey = (\<lambda>b. if b = [] then Inl (Failure ''ssh: short read'')
                             else Inr \<lparr>key_Type = ''ssh-rsa'', key_Marshal = b\<rparr>),
      Verify = (\<lambda>k d s. if Blob s = key_Marshal k @ d then None
                         else Some (Failure ''ssh: signature did not verify'')),
      Sign = (\<lambda>s r d. if secret s = [] then Inl (Failure ''ssh: signing failed'')
                       else Inr \<lparr>Format = key_Type (PublicKey s),
                                 Blob = key_Marshal (PublicKey s) @ d\<rparr>),
      buildDataSignedForAuth = (\<lambda>sid req algo pk. sid @ 50 # bytes_of_string (User req) @ pk),
      validateKey = sample_validateKey,
      Marshal_request = (\<lambda>m. 50 # bytes_of_string (User m) @ 0 # bytes_of_string (Method m)
                                  @ 0 # Payload m),
      Unmarshal_request = sample_Unmarshal_request,
      Marshal_failure = (\<lambda>m. 51 # concat (map bytes_of_string (Methods m))),
      Marshal_pubKeyOk = (\<lambda>m. 60 # bytes_of_string (Algo m) @ 0 # PubKey m),
      Marshal_publickeyAuth = (\<lambda>m. [50, 3]),
      Marshal_signature = (\<lambda>s. bytes_of_string (Format s) @ 0 # Blob s),
      marshalString = (\<lambda>s. 0 # 0 # 0 # of_nat (length s) # s),
      Marshal_serviceRequest = (\<lambda>s. 5 # bytes_of_string s),
      Unmarshal_serviceAccept = (\<lambda>p. if p = [6] then None else Some (parseError 6)),
      serverHandshake = (\<lambda>c cfg. if hostKeys cfg = [] then Inl (Failure ''ssh: no host key'')
          else Inr \<lparr>sessionID = [0xD0], config_Rand = 0,
                    incoming = map Inr din, wresults = [], sent = []\<rparr>),
      clientHandshake = (\<lambda>c addr cfg. if addr = [] then Inl (Failure ''ssh: handshake failed'')
          else Inr (\<lparr>sessionID = [0xB0], config_Rand = 0,
                     incoming = map Inr uin, wresults = [], sent = []\<rparr>, cc_User cfg)),
      forwarding = (\<lambda>u d. EOF)\<rparr>"

definition sample_query :: userAuthRequestMsg where
  "sample_query = \<lparr>User = ''alice'', Service = ''ssh-connection'', Method = ''publickey'',
     Payload = [0, 0,0,0,7, 0x73,0x73,0x68,0x2d,0x72,0x73,0x61, 0,0,0,3, 1,2,3]\<rparr>"

definition sample_signer :: signer where
  "sample_signer = \<lparr>PublicKey = \<lparr>key_Type = ''ssh-ed25519'', key_Marshal = [9, 9]\<rparr>, secret = [7]\<rparr>"

definition sample_piper ::
  "signer \<Rightarrow> (connection \<Rightarrow> (bool \<times> error option) \<times> transport) option \<Rightarrow> SSHPiper" where
  "sample_piper signr challenge =
     \<lparr>DownstreamConfig = \<lparr>hostKeys = [sample_signer]\<rparr>,
      AdditionalChallenge = challenge,
      FindUpstream = (\<lambda>d. Inr (\<lparr>RemoteAddr = ''10.0.0.2:22'', closed = 0\<rparr>, \<lparr>cc_User = []\<rparr>)),
      MapPublicKey = (\<lambda>d k. if key_Marshal k = [1, 2, 3] then (Some signr, None)
                               else (None, None))\<rparr>"

definition sample_conn :: netConn where
  "sample_conn = \<lparr>RemoteAddr = ''192.0.2.7:50000'', closed = 0\<rparr>"

definition sample_other_query :: userAuthRequestMsg where
  "sample_other_query = \<lparr>User = ''alice'', Service = ''ssh-connection'', Method = ''publickey'',
     Payload = [0, 0,0,0,7, 0x73,0x73,0x68,0x2d,0x72,0x73,0x61, 0,0,0,3, 4,5,6]\<rparr>"

definition sample_transport :: "bytes \<Rightarrow> bytes list \<Rightarrow> transport" where
  "sample_transport sid inp =
     \<lparr>sessionID = sid, config_Rand = 0, incoming = map Inr inp, wresults = [], sent = []\<rparr>"

definition sample_pipe :: "bytes list \<Rightarrow> bytes list \<Rightarrow> pipedConn" where
  "sample_pipe din uin =
     \<lparr>upstream = \<lparr>conn = \<lparr>RemoteAddr = ''10.0.0.2:22'', closed = 0\<rparr>,
                   transport = sample_transport [0xB0] uin, sshConn_user = []\<rparr>,
      downstream = \<lparr>conn = sample_conn, transport = sample_transport [0xD0] din,
                     sshConn_user = ''alice''\<rparr>,
      calls = []\<rparr>"

text \<open>
  A signed publickey request of \<open>alice\<close> for the key \<open>[1, 2, 3]\<close>; \<open>fmt\<close> is the
  seven-byte format name of the signature, whose blob verifies under the sample
  library against the session identifier \<open>[0xD0]\<close>.
\<close>

definition sample_signed :: "bytes \<Rightarrow> userAuthRequestMsg" where
  "sample_signed fmt = \<lparr>User = ''alice'', Service = ''ssh-connection'', Method = ''publickey'',
     Payload = [1, 0,0,0,7, 0x73,0x73,0x68,0x2d,0x72,0x73,0x61, 0,0,0,3, 1,2,3,
                0,0,0,7] @ fmt @ [0,0,0,13, 1,2,3, 0xD0, 50, 0x61,0x6c,0x69,0x63,0x65, 1,2,3]\<rparr>"

definition broken_signer :: signer where
  "broken_signer = \<lparr>PublicKey = \<lparr>key_Type = ''ssh-ed25519'', key_Marshal = [9, 9]\<rparr>, secret = []\<rparr>"

text \<open>
  A publickey query of \<open>alice\<close> that advertises the algorithm \<open>ssh-dss\<close>.
\<close>

definition sample_dss_query :: userAuthRequestMsg where
  "sample_dss_query = \<lparr>User = ''alice'', Service = ''ssh-connection'', Method = ''publickey'',
     Payload = [0, 0,0,0,7, 0x73,0x73,0x68,0x2d,0x64,0x73,0x73, 0,0,0,3, 1,2,3]\<rparr>"

definition sample_none :: userAuthRequestMsg where
  "sample_none = \<lparr>User = ''alice'', Service = ''ssh-connection'', Method = ''none'', Payload = []\<rparr>"

text \<open>
  A whole session under the sample library: the downstream asks for \<open>none\<close>, the
  upstream accepts the service request and answers the relayed request with
  \<open>USERAUTH_SUCCESS\<close>, and the forwarding loop ends with \<open>EOF\<close>.
\<close>

definition sample_session :: outcome where
  "sample_session = Serve (sample_lib [[50, 1]] [[6], [52]]) (sample_piper sample_signer None) sample_conn"

definition sample_empty_publickey :: userAuthRequestMsg where
  "sample_empty_publickey =
     \<lparr>User = ''alice'', Service = ''ssh-connection'', Method = ''publickey'', Payload = []\<rparr>"

text \<open>
  A challenger that answers \<open>ok\<close> without a dialogue, and a session in which it refuses:
  the downstream first asks for \<open>none\<close>, then for \<open>none\<close> again, then for
  \<open>keyboard-interactive\<close>.
\<close>

definition sample_challenge :: "bool \<Rightarrow> connection \<Rightarrow> (bool \<times> error option) \<times> transport" where
  "sample_challenge ok d = ((ok, None), transport d)"

definition sample_refused_session :: outcome where
  "sample_refused_session =
     Serve (sample_lib [[50, 1], [50, 1], [50, 2]] [[6], [52]])
       (sample_piper sample_signer (Some (sample_challenge False))) sample_conn"

text \<open>
  A host on which the three files of \<open>alice\<close> exist with the mode \<open>mode\<close>.
\<close>

definition sample_host :: "fileMode \<Rightarrow> host" where
  "sample_host mode =
     \<lparr>WorkingDir = ''/var/sshpiper'',
      os_Open = (\<lambda>path. if path = ''/var/sshpiper/alice/authorized_keys''
                            \<or> path = ''/var/sshpiper/alice/id_rsa''
                            \<or> path = ''/var/sshpiper/alice/sshpiper_upstream''
                         then Inr \<lparr>Stat = Inr mode\<rparr>
                         else Inl (Failure ''open: no such file or directory'')),
      ReadFile = (\<lambda>path. Inr []),
      net_Dial = (\<lambda>network addr. Inr \<lparr>RemoteAddr = addr, closed = 0\<rparr>),
      TrimSpace = (\<lambda>s. s),
      ParseAuthorizedKey = (\<lambda>inp. Inl (Failure ''ssh: no key found'')),
      ParsePrivateKey = (\<lambda>inp. Inl (Failure ''ssh: no key found''))\<rparr>"

definition sample_userfile_piper :: "fileMode \<Rightarrow> SSHPiper" where
  "sample_userfile_piper mode =
     \<lparr>DownstreamConfig = \<lparr>hostKeys = [sample_signer]\<rparr>,
      AdditionalChallenge = None,
      FindUpstream = findUpstreamFromUserfile (sample_host mode),
      MapPublicKey = (\<lambda>c key. case mapPublicKeyFromUserfile (sample_host mode) c key of
                                 Some r \<Rightarrow> r | None \<Rightarrow> (None, None))\<rparr>"

section \<open>Facts about the transport and the hook\<close>

lemma ssh_rsa_bytes: "string_of_bytes [0x73,0x73,0x68,0x2d,0x72,0x73,0x61] = ''ssh-rsa''"
  by (simp add: string_of_bytes_def char_of_def bit_Suc_0_iff)

lemma writePacket_ok:
  "write_ok t \<Longrightarrow> writePacket t p = (None, t\<lparr>wresults := tl (wresults t), sent := sent t @ [p]\<rparr>)"
  by (auto simp: write_ok_def writePacket_def split: list.splits option.splits)

lemma writePacket_sent:
  "writePacket t p = (None, t') \<Longrightarrow> sent t' = sent t @ [p]"
  by (auto simp: writePacket_def split: list.splits option.splits)

lemma readPacket_sent: "sent (snd (readPacket t)) = sent t"
  by (simp add: readPacket_def split: list.splits)

lemma nextAuthMsg_upd: "\<exists>t. snd (nextAuthMsg L d) = d\<lparr>transport := t\<rparr>"
  by (auto simp: nextAuthMsg_def split: prod.splits sum.splits option.splits)

lemma processAuthMsg_unmapped:
  assumes "Method msg = ''publickey''"
    and "parsePublicKeyMsg L msg = Inr (downKey, isQuery, sig)"
    and "MapPublicKey piper (downstream p) downKey = (s, e)"
    and "s = None \<or> e \<noteq> None"
  shows "processAuthMsg L piper p msg =
           ((Some (noneAuthMsg (User msg)), None), p\<lparr>calls := calls p @ [EvMapPublicKey downKey]\<rparr>)"
  using assms by (auto simp: processAuthMsg_def Let_def split: option.splits)

lemma pipeAuth_relay_sent:
  assumes "write_ok (transport (upstream q))"
  shows "sent (transport (upstream (snd (pipeAuth_relay L q (Some m))))) =
           sent (transport (upstream q)) @ [Marshal_request L m]"
proof -
  have r: "\<And>t. sent (snd (readPacket t)) = sent t" by (rule readPacket_sent)
  show ?thesis
    using r [of "(transport (upstream q))\<lparr>wresults := tl (wresults (transport (upstream q))),
                  sent := sent (transport (upstream q)) @ [Marshal_request L m]\<rparr>"]
    by (auto simp: pipeAuth_relay_def writePacket_ok [OF assms] Let_def
             split: prod.splits sum.splits list.splits option.splits)
qed

lemma pipeAuth_body_upstream:
  assumes "processAuthMsg L piper p msg = ((m, None), p1)"
  shows "upstream (snd (pipeAuth_body L piper p msg)) = upstream (snd (pipeAuth_relay L p1 m))"
  using assms nextAuthMsg_upd [of L "downstream (snd (pipeAuth_relay L p1 m))"]
  by (auto simp: pipeAuth_body_def split: prod.splits option.splits sum.splits)

lemma signAgain_error:
  assumes "signAgain L p msg signr downKey = ((m, Some e), p')"
  shows "m = None \<and> upstream p' = upstream p \<and> downstream p' = downstream p"
  using assms by (auto simp: signAgain_def Let_def split: sum.splits)

lemma checkPublicKey_conns:
  assumes "checkPublicKey L p msg k sg = (r, p')"
  shows "upstream p' = upstream p \<and> downstream p' = downstream p"
  using assms by (auto simp: checkPublicKey_def Let_def split: if_splits)

lemma pipeAuth_body_suppressed:
  assumes "processAuthMsg L piper p msg = ((None, None), p1)"
  shows "pipeAuth_body L piper p msg =
           (case nextAuthMsg L (downstream p1) of
              (Inl err, d) \<Rightarrow> (Return (Some err), p1\<lparr>downstream := d\<rparr>)
            | (Inr m, d) \<Rightarrow> (Next m, p1\<lparr>downstream := d\<rparr>))"
  using assms by (simp add: pipeAuth_body_def pipeAuth_relay_def)

lemma alice_bytes: "bytes_of_string ''alice'' = [0x61,0x6c,0x69,0x63,0x65]"
  by (simp add: bytes_of_string_def)

lemma parse_sample_signed:
  "parsePublicKeyMsg (sample_lib din uin) (sample_signed [0x73,0x73,0x68,0x2d,0x72,0x73,0x61]) =
     Inr (\<lparr>key_Type = ''ssh-rsa'', key_Marshal = [1, 2, 3]\<rparr>, False,
          Some \<lparr>Format = ''ssh-rsa'',
                Blob = [1,2,3, 0xD0, 50, 0x61,0x6c,0x69,0x63,0x65, 1,2,3]\<rparr>)"
  by (simp add: parsePublicKeyMsg_def sample_lib_def sample_signed_def sample_parseString_def
        sample_parseSignature_def be32_def ssh_rsa_bytes)

lemma ssh_dss_bytes: "string_of_bytes [0x73,0x73,0x68,0x2d,0x64,0x73,0x73] = ''ssh-dss''"
  by (simp add: string_of_bytes_def char_of_def bit_Suc_0_iff)

lemma pipeAuth_loop_hook_error:
  assumes "processAuthMsg L piper p msg = ((m, Some e), p1)"
  shows "pipeAuth_loop L piper p msg = (Some e, p1)"
  using assms by (simp add: pipeAuth_body_def)

lemma parse_sample_dss_signed:
  "parsePublicKeyMsg (sample_lib din uin) (sample_signed [0x73,0x73,0x68,0x2d,0x64,0x73,0x73]) =
     Inr (\<lparr>key_Type = ''ssh-rsa'', key_Marshal = [1, 2, 3]\<rparr>, False,
          Some \<lparr>Format = ''ssh-dss'',
                Blob = [1,2,3, 0xD0, 50, 0x61,0x6c,0x69,0x63,0x65, 1,2,3]\<rparr>)"
  by (simp add: parsePublicKeyMsg_def sample_lib_def sample_signed_def sample_parseString_def
        sample_parseSignature_def be32_def ssh_rsa_bytes ssh_dss_bytes)

lemma nextAuthMsg_sent: "sent (transport (snd (nextAuthMsg L d))) = sent (transport d)"
  using readPacket_sent [of "transport d"]
  by (auto simp: nextAuthMsg_def split: prod.splits sum.splits option.splits)

lemma pipeAuth_relay_ok:
  assumes "write_ok (transport (upstream q))"
    and "incoming (transport (upstream q)) = Inr (b # rest) # ins"
    and "write_ok (transport (downstream q))"
  shows "pipeAuth_relay L q (Some req) =
           (if b = msgUserAuthSuccess then Some None else None,
            q\<lparr>upstream := (upstream q)\<lparr>transport := (transport (upstream q))
                    \<lparr>wresults := tl (wresults (transport (upstream q))),
                     sent := sent (transport (upstream q)) @ [Marshal_request L req],
                     incoming := ins\<rparr>\<rparr>,
              downstream := (downstream q)\<lparr>transport := (transport (downstream q))
                    \<lparr>wresults := tl (wresults (transport (downstream q))),
                     sent := sent (transport (downstream q)) @ [b # rest]\<rparr>\<rparr>\<rparr>)"
  using assms
  by (simp add: pipeAuth_relay_def writePacket_ok readPacket_def Let_def)

lemma pipeAuth_relay_success:
  assumes "pipeAuth_relay L q m = (Some None, q')"
  shows "\<exists>req b rest t. m = Some req
           \<and> readPacket (snd (writePacket (transport (upstream q)) (Marshal_request L req))) =
               (Inr (b # rest), t)
           \<and> b = msgUserAuthSuccess"
  using assms
  by (auto simp: pipeAuth_relay_def Let_def
           split: option.splits prod.splits sum.splits list.splits if_splits)

lemma validAndAck_result:
  assumes "validateKey L upKey (sshConn_user (downstream p)) (transport (upstream p)) =
             ((ok, verr), ut)"
    and "writePacket (transport (downstream p))
           (Marshal_pubKeyOk L \<lparr>Algo = key_Type downKey, PubKey = key_Marshal downKey\<rparr>) = (werr, dt)"
  shows "validAndAck L p upKey downKey =
           (if ok then ((None, werr),
                        p\<lparr>upstream := (upstream p)\<lparr>transport := ut\<rparr>,
                          downstream := (downstream p)\<lparr>transport := dt\<rparr>\<rparr>)
            else ((Some (noneAuthMsg (sshConn_user (downstream p))), None),
                  p\<lparr>upstream := (upstream p)\<lparr>transport := ut\<rparr>\<rparr>))"
  using assms by (auto simp: validAndAck_def Let_def)

lemma validAndAck_calls: "validAndAck L p upKey downKey = (r, p') \<Longrightarrow> calls p' = calls p"
  by (auto simp: validAndAck_def Let_def split: prod.splits if_splits)

lemma checkPublicKey_calls:
  assumes "checkPublicKey L p msg k sg = (r, p')"
  shows "\<exists>evs. calls p' = calls p @ evs \<and> list_all (crypto_event_ok L p msg) evs"
  using assms
  by (auto simp: checkPublicKey_def Let_def crypto_event_ok_def verify_blob_def split: if_splits)

lemma signAgain_calls:
  assumes "signAgain L p msg signr k = (r, p')"
  shows "\<exists>evs. calls p' = calls p @ evs \<and> list_all (crypto_event_ok L p msg) evs"
  using assms
  by (auto simp: signAgain_def Let_def crypto_event_ok_def resign_blob_def split: sum.splits)

lemma crypto_event_ok_cong:
  assumes "upstream q = upstream p" and "downstream q = downstream p"
  shows "crypto_event_ok L q msg = crypto_event_ok L p msg"
  using assms
  by (auto simp: crypto_event_ok_def verify_blob_def resign_blob_def fun_eq_iff split: event.splits)

lemma processAuthMsg_calls:
  "\<exists>evs. calls (snd (processAuthMsg L piper p msg)) = calls p @ evs
         \<and> list_all (crypto_event_ok L p msg) evs"
proof (cases "Method msg \<noteq> ''publickey''")
  case True
  then show ?thesis by (simp add: processAuthMsg_def)
next
  case pk: False
  show ?thesis
  proof (cases "parsePublicKeyMsg L msg")
    case (Inl e)
    with pk show ?thesis by (simp add: processAuthMsg_def)
  next
    case (Inr t)
    obtain downKey isQuery sig where t: "t = (downKey, isQuery, sig)" by (cases t)
    obtain so err where mp: "MapPublicKey piper (downstream p) downKey = (so, err)"
      by (cases "MapPublicKey piper (downstream p) downKey")
    let ?p1 = "p\<lparr>calls := calls p @ [EvMapPublicKey downKey]\<rparr>"
    have ok1: "crypto_event_ok L ?p1 msg = crypto_event_ok L p msg"
      by (rule crypto_event_ok_cong) simp_all
    have e1: "crypto_event_ok L p msg (EvMapPublicKey downKey)"
      by (simp add: crypto_event_ok_def)
    show ?thesis
    proof (cases "so = None \<or> err \<noteq> None")
      case True
      then have "processAuthMsg L piper p msg = ((Some (noneAuthMsg (User msg)), None), ?p1)"
        using pk Inr t mp by (auto simp: processAuthMsg_def Let_def split: option.splits)
      then show ?thesis using e1 by simp
    next
      case False
      then obtain signr where so: "so = Some signr" and err: "err = None" by auto
      show ?thesis
      proof (cases isQuery)
        case True
        obtain r q where va: "validAndAck L ?p1 (PublicKey signr) downKey = (r, q)"
          by (cases "validAndAck L ?p1 (PublicKey signr) downKey")
        have "calls (snd (processAuthMsg L piper p msg)) = calls q"
          using pk Inr t mp so err True va
          by (cases r) (simp add: processAuthMsg_def Let_def)
        with validAndAck_calls [OF va] e1 show ?thesis by simp
      next
        case nq: False
        show ?thesis
        proof (cases sig)
          case None
          then have "calls (snd (processAuthMsg L piper p msg)) = calls ?p1"
            using pk Inr t mp so err nq by (simp add: processAuthMsg_def Let_def)
          then show ?thesis using e1 by simp
        next
          case (Some sg)
          obtain r2 p2 where ck: "checkPublicKey L ?p1 msg downKey sg = (r2, p2)"
            by (cases "checkPublicKey L ?p1 msg downKey sg")
          obtain ok err2 where r2: "r2 = (ok, err2)" by (cases r2)
          from checkPublicKey_calls [OF ck] ok1 obtain evs2 where
            c2: "calls p2 = calls ?p1 @ evs2" and g2: "list_all (crypto_event_ok L p msg) evs2"
            by auto
          have k2: "upstream p2 = upstream p" "downstream p2 = downstream p"
            using checkPublicKey_conns [OF ck] by simp_all
          obtain r3 p3 where sa: "signAgain L p2 msg signr downKey = (r3, p3)"
            by (cases "signAgain L p2 msg signr downKey")
          have ok2: "crypto_event_ok L p2 msg = crypto_event_ok L p msg"
            using k2 by (rule crypto_event_ok_cong)
          from signAgain_calls [OF sa] ok2 obtain evs3 where
            c3: "calls p3 = calls p2 @ evs3" and g3: "list_all (crypto_event_ok L p msg) evs3"
            by auto
          have "calls (snd (processAuthMsg L piper p msg)) = calls p2
                \<or> calls (snd (processAuthMsg L piper p msg)) = calls p3"
            using pk Inr t mp so err nq Some ck r2 sa
            by (cases r3) (simp add: processAuthMsg_def Let_def)
          then show ?thesis
            using c2 c3 g2 g3 e1 by auto
        qed
      qed
    qed
  qed
qed

lemma auth_progress_refl: "auth_progress p p"
  by (simp add: auth_progress_def)

lemma auth_progress_trans: "auth_progress p q \<Longrightarrow> auth_progress q r \<Longrightarrow> auth_progress p r"
  by (auto simp: auth_progress_def)

lemma crypto_event_is_hook_event: "crypto_event_ok L p msg ev \<Longrightarrow> is_hook_event ev"
  by (cases ev) (simp_all add: crypto_event_ok_def is_hook_event_def)

lemma validAndAck_conn:
  "validAndAck L p upKey downKey = (r, p') \<Longrightarrow>
     conn (upstream p') = conn (upstream p) \<and> conn (downstream p') = conn (downstream p)"
  by (auto simp: validAndAck_def Let_def split: prod.splits if_splits)

lemma signAgain_conns:
  "signAgain L p msg s k = (r, p') \<Longrightarrow> upstream p' = upstream p \<and> downstream p' = downstream p"
  by (auto simp: signAgain_def Let_def split: sum.splits)

lemma processAuthMsg_conn:
  "conn (upstream (snd (processAuthMsg L piper p msg))) = conn (upstream p)
   \<and> conn (downstream (snd (processAuthMsg L piper p msg))) = conn (downstream p)"
  by (auto simp: processAuthMsg_def Let_def split: sum.splits prod.splits option.splits
           dest!: validAndAck_conn checkPublicKey_conns signAgain_conns)

lemma processAuthMsg_progress: "auth_progress p (snd (processAuthMsg L piper p msg))"
proof -
  obtain evs where "calls (snd (processAuthMsg L piper p msg)) = calls p @ evs"
    and "list_all (crypto_event_ok L p msg) evs"
    using processAuthMsg_calls [of L piper p msg] by blast
  then have "\<exists>evs. calls (snd (processAuthMsg L piper p msg)) = calls p @ evs
               \<and> list_all is_hook_event evs"
    by (auto simp: list_all_iff dest: crypto_event_is_hook_event)
  then show ?thesis
    using processAuthMsg_conn [of L piper p msg] by (simp add: auth_progress_def)
qed

lemma pipeAuth_relay_progress: "auth_progress p (snd (pipeAuth_relay L p m))"
  by (auto simp: pipeAuth_relay_def auth_progress_def Let_def
           split: option.splits prod.splits sum.splits list.splits)

lemma nextAuthMsg_conn:
  "conn (snd (nextAuthMsg L d)) = conn d \<and> sshConn_user (snd (nextAuthMsg L d)) = sshConn_user d"
  by (auto simp: nextAuthMsg_def split: prod.splits sum.splits option.splits)

lemma pipeAuth_body_progress: "auth_progress p (snd (pipeAuth_body L piper p msg))"
proof -
  obtain r p1 where pa: "processAuthMsg L piper p msg = (r, p1)"
    by (cases "processAuthMsg L piper p msg")
  obtain r2 p2 where pr: "pipeAuth_relay L p1 (fst r) = (r2, p2)"
    by (cases "pipeAuth_relay L p1 (fst r)")
  have a1: "auth_progress p p1" using processAuthMsg_progress [of p L piper msg] pa by simp
  have a2: "auth_progress p1 p2" using pipeAuth_relay_progress [of p1 L "fst r"] pr by simp
  have a12: "auth_progress p p2" using a1 a2 by (rule auth_progress_trans)
  have a3: "auth_progress p2 (p2\<lparr>downstream := snd (nextAuthMsg L (downstream p2))\<rparr>)"
    using nextAuthMsg_conn [of L "downstream p2"] by (simp add: auth_progress_def)
  have a13: "auth_progress p (p2\<lparr>downstream := snd (nextAuthMsg L (downstream p2))\<rparr>)"
    using a12 a3 by (rule auth_progress_trans)
  have "snd (pipeAuth_body L piper p msg) = p1 \<or> snd (pipeAuth_body L piper p msg) = p2
        \<or> snd (pipeAuth_body L piper p msg) = p2\<lparr>downstream := snd (nextAuthMsg L (downstream p2))\<rparr>"
    using pa pr by (cases r) (auto simp: pipeAuth_body_def split: option.splits prod.splits sum.splits)
  with a1 a12 a13 show ?thesis by auto
qed

lemma pipeAuth_loop_progress: "auth_progress p (snd (pipeAuth_loop L piper p msg))"
proof (induction L piper p msg rule: pipeAuth_loop.induct)
  case (1 L piper pipe userAuthMsg)
  obtain s pipe1 where b: "pipeAuth_body L piper pipe userAuthMsg = (s, pipe1)"
    by (cases "pipeAuth_body L piper pipe userAuthMsg")
  have a1: "auth_progress pipe pipe1"
    using pipeAuth_body_progress [of pipe L piper userAuthMsg] b by simp
  show ?case
  proof (cases s)
    case (Return r)
    with b a1 show ?thesis by simp
  next
    case (Next m)
    have "auth_progress pipe1 (snd (pipeAuth_loop L piper pipe1 m))"
      using "1.IH" b Next by auto
    with a1 have "auth_progress pipe (snd (pipeAuth_loop L piper pipe1 m))"
      by (rule auth_progress_trans)
    with b Next show ?thesis by simp
  qed
qed

lemma sendAuthReq_conn: "conn (snd (sendAuthReq L u)) = conn u"
  by (auto simp: sendAuthReq_def split: prod.splits option.splits sum.splits)

lemma pipeAuth_progress: "auth_progress p (snd (pipeAuth L piper p msg))"
proof -
  obtain r u where s: "sendAuthReq L (upstream p) = (r, u)" by (cases "sendAuthReq L (upstream p)")
  have a1: "auth_progress p (p\<lparr>upstream := u\<rparr>)"
    using sendAuthReq_conn [of L "upstream p"] s by (simp add: auth_progress_def)
  show ?thesis
  proof (cases r)
    case None
    have "auth_progress (p\<lparr>upstream := u\<rparr>) (snd (pipeAuth_loop L piper (p\<lparr>upstream := u\<rparr>) msg))"
      by (rule pipeAuth_loop_progress)
    with a1 have "auth_progress p (snd (pipeAuth_loop L piper (p\<lparr>upstream := u\<rparr>) msg))"
      by (rule auth_progress_trans)
    with s None show ?thesis by (simp add: pipeAuth_def)
  next
    case (Some e)
    with s a1 show ?thesis by (simp add: pipeAuth_def)
  qed
qed

lemma not_hook_event:
  "\<not> is_hook_event EvForwarding" "\<not> is_hook_event EvFindUpstream"
  "\<not> is_hook_event (EvAdditionalChallenge ok err)"
  by (simp_all add: is_hook_event_def)

lemma auth_progress_no_forwarding:
  assumes "auth_progress p q"
  shows "EvForwarding \<in> set (calls q) \<longleftrightarrow> EvForwarding \<in> set (calls p)"
    and "EvFindUpstream \<in> set (calls q) \<longleftrightarrow> EvFindUpstream \<in> set (calls p)"
  using assms not_hook_event by (auto simp: auth_progress_def list_all_iff)

lemma loop_closes:
  "loop L p = (r, p1) \<Longrightarrow>
     (\<exists>e. r = Some e) \<and> calls p1 = calls p @ [EvForwarding]
     \<and> conn (upstream p1) = Close_netConn (conn (upstream p))
     \<and> conn (downstream p1) = Close_netConn (conn (downstream p))"
  by (auto simp: loop_def Let_def Close_pipedConn_def Close_connection_def)

lemma Serve_piped_cases:
  assumes "Serve_piped L piper p req = (r, p1)" and "EvForwarding \<notin> set (calls p)"
  shows "(\<exists>e. pipeAuth L piper p req = (Some e, p1) \<and> r = Some e
            \<and> EvForwarding \<notin> set (calls p1)
            \<and> conn (upstream p1) = conn (upstream p)
            \<and> conn (downstream p1) = conn (downstream p))
       \<or> (fst (pipeAuth L piper p req) = None \<and> r \<noteq> None
            \<and> EvForwarding \<in> set (calls p1)
            \<and> conn (upstream p1) = Close_netConn (conn (upstream p))
            \<and> conn (downstream p1) = Close_netConn (conn (downstream p)))"
proof -
  obtain ra q where pa: "pipeAuth L piper p req = (ra, q)" by (cases "pipeAuth L piper p req")
  have ap: "auth_progress p q" using pipeAuth_progress [of p L piper req] pa by simp
  then have c: "conn (upstream q) = conn (upstream p)" "conn (downstream q) = conn (downstream p)"
    by (simp_all add: auth_progress_def)
  have nf: "EvForwarding \<notin> set (calls q)"
    using auth_progress_no_forwarding(1) [OF ap] assms(2) by simp
  show ?thesis
  proof (cases ra)
    case None
    with pa assms(1) have "loop L q = (r, p1)" by (simp add: Serve_piped_def)
    from loop_closes [OF this] pa None c show ?thesis by auto
  next
    case (Some e)
    with pa assms(1) have "r = Some e" "p1 = q" by (simp_all add: Serve_piped_def)
    with pa Some c nf show ?thesis by simp
  qed
qed

lemma newUpstream_conn:
  "newUpstream L c a cfg = Inr u \<Longrightarrow> conn u = c"
  "newUpstream L c a cfg = Inl (e, c') \<Longrightarrow> c' = Close_netConn c"
  by (auto simp: newUpstream_def split: sum.splits prod.splits)

lemma newDownstream_conn:
  "newDownstream L c cfg = Inr d \<Longrightarrow> conn d = c"
  "newDownstream L c cfg = Inl (e, c') \<Longrightarrow> c' = Close_netConn c"
  by (auto simp: newDownstream_def split: sum.splits)

lemma Serve_upstream_closes:
  assumes "Serve_upstream L piper d evs req = (r, d', up, tr)" and "EvForwarding \<notin> set evs"
  shows "conn d' = (if EvForwarding \<in> set tr then Close_netConn (conn d) else conn d)
       \<and> (case up of
            None \<Rightarrow> EvForwarding \<notin> set tr
          | Some (uc, t) \<Rightarrow>
              \<exists>upconn cfg. FindUpstream piper d = Inr (upconn, cfg)
                \<and> uc = (if EvForwarding \<in> set tr then Close_netConn (Close_netConn upconn)
                        else Close_netConn upconn))"
proof (cases "FindUpstream piper d")
  case (Inl e)
  with assms show ?thesis by (auto simp: Serve_upstream_def)
next
  case (Inr a)
  obtain upconn upconfig where a: "a = (upconn, upconfig)" by (cases a)
  show ?thesis
  proof (cases "newUpstream L upconn (RemoteAddr upconn) upconfig")
    case (Inl b)
    obtain e c where b: "b = (e, c)" by (cases b)
    have "c = Close_netConn upconn" using newUpstream_conn(2) Inl b by simp
    with assms Inr a Inl b show ?thesis by (auto simp: Serve_upstream_def)
  next
    case u: (Inr u)
    let ?p = "\<lparr>upstream = u, downstream = d, calls = evs @ [EvFindUpstream]\<rparr>"
    obtain r1 p1 where sp: "Serve_piped L piper ?p req = (r1, p1)"
      by (cases "Serve_piped L piper ?p req")
    have cu: "conn u = upconn" using newUpstream_conn(1) u by simp
    have res: "r = r1" "d' = downstream p1"
      "up = Some (Close_netConn (conn (upstream p1)), Some (transport (upstream p1)))"
      "tr = calls p1"
      using assms(1) Inr a u sp by (simp_all add: Serve_upstream_def Let_def Close_connection_def)
    from Serve_piped_cases [OF sp] assms(2)
    show ?thesis using res cu Inr a by auto
  qed
qed

lemma coerce_conn: "conn (snd (coerce L d)) = conn d"
proof (induction L d rule: coerce.induct)
  case (1 L d)
  let ?F = "Marshal_failure L \<lparr>Methods = [''keyboard-interactive''], PartialSuccess = False\<rparr>"
  obtain w t where w: "writePacket (transport d) ?F = (w, t)"
    by (cases "writePacket (transport d) ?F")
  show ?case
  proof (cases w)
    case (Some e)
    with w show ?thesis by (subst coerce.simps) simp
  next
    case None
    obtain n d1 where n: "nextAuthMsg L (d\<lparr>transport := t\<rparr>) = (n, d1)"
      by (cases "nextAuthMsg L (d\<lparr>transport := t\<rparr>)")
    have c1: "conn d1 = conn d"
      using nextAuthMsg_conn [of L "d\<lparr>transport := t\<rparr>"] n by simp
    show ?thesis
    proof (cases n)
      case (Inl e)
      with w None n c1 show ?thesis by (subst coerce.simps) simp
    next
      case (Inr req)
      show ?thesis
      proof (cases "Method req = ''keyboard-interactive''")
        case True
        with w None n Inr c1 show ?thesis by (subst coerce.simps) simp
      next
        case False
        have "conn (snd (coerce L d1)) = conn d1"
          using "1.IH" w None n Inr False by auto
        with w None n Inr False c1 show ?thesis by (subst coerce.simps) simp
      qed
    qed
  qed
qed

lemma additionalChallenge_cases:
  assumes "additionalChallenge L piper d = (r, d', evs)"
  shows "conn d' = conn d"
    and "AdditionalChallenge piper = None \<Longrightarrow> r = None \<and> d' = d \<and> evs = []"
    and "AdditionalChallenge piper \<noteq> None \<Longrightarrow>
           (evs = [] \<and> r \<noteq> None)
         \<or> (\<exists>ok err. evs = [EvAdditionalChallenge ok err]
               \<and> r = (if err \<noteq> None then err
                      else if \<not> ok then Some AdditionalChallengeFailed else None))"
proof -
  show "AdditionalChallenge piper = None \<Longrightarrow> r = None \<and> d' = d \<and> evs = []"
    using assms by (simp add: additionalChallenge_def)
  obtain c d1 where c: "coerce L d = (c, d1)" by (cases "coerce L d")
  have c1: "conn d1 = conn d" using coerce_conn [of L d] c by simp
  show "conn d' = conn d"
    using assms c c1
    by (auto simp: additionalChallenge_def Let_def split: option.splits prod.splits if_splits)
  show "AdditionalChallenge piper \<noteq> None \<Longrightarrow>
           (evs = [] \<and> r \<noteq> None)
         \<or> (\<exists>ok err. evs = [EvAdditionalChallenge ok err]
               \<and> r = (if err \<noteq> None then err
                      else if \<not> ok then Some AdditionalChallengeFailed else None))"
    using assms c
    by (auto simp: additionalChallenge_def Let_def split: option.splits prod.splits if_splits)
qed

lemma Serve_downstream_closes:
  assumes "Serve_downstream L piper d = (r, d', up, tr)"
  shows "conn d' = (if EvForwarding \<in> set tr then Close_netConn (conn d) else conn d)
       \<and> (case up of
            None \<Rightarrow> EvForwarding \<notin> set tr
          | Some (uc, t) \<Rightarrow>
              \<exists>d3 upconn cfg. FindUpstream piper d3 = Inr (upconn, cfg)
                \<and> uc = (if EvForwarding \<in> set tr then Close_netConn (Close_netConn upconn)
                        else Close_netConn upconn))"
proof -
  obtain n d1 where n: "nextAuthMsg L d = (n, d1)" by (cases "nextAuthMsg L d")
  have c1: "conn d1 = conn d" using nextAuthMsg_conn [of L d] n by simp
  show ?thesis
  proof (cases n)
    case (Inl e)
    with assms n c1 show ?thesis by (auto simp: Serve_downstream_def)
  next
    case (Inr req)
    let ?d2 = "d1\<lparr>sshConn_user := User req\<rparr>"
    obtain ra d3 evs where ac: "additionalChallenge L piper ?d2 = (ra, d3, evs)"
      by (cases "additionalChallenge L piper ?d2")
    have c3: "conn d3 = conn d" using additionalChallenge_cases(1) [OF ac] c1 by simp
    have nf: "EvForwarding \<notin> set evs"
      using additionalChallenge_cases(2,3) [OF ac] by (cases "AdditionalChallenge piper") auto
    show ?thesis
    proof (cases ra)
      case (Some e)
      with assms n Inr ac c3 nf show ?thesis by (auto simp: Serve_downstream_def)
    next
      case None
      with assms n Inr ac have su: "Serve_upstream L piper d3 evs req = (r, d', up, tr)"
        by (simp add: Serve_downstream_def)
      from Serve_upstream_closes [OF su nf] c3 show ?thesis
        by (cases "EvForwarding \<in> set tr") (auto split: option.splits)
    qed
  qed
qed

lemma sample_session_eval:
  "sample_session =
     \<lparr>returned = Some EOF,
      down_conn = \<lparr>RemoteAddr = ''192.0.2.7:50000'', closed = 2\<rparr>,
      down_transport = Some \<lparr>sessionID = [0xD0], config_Rand = 0, incoming = [], wresults = [],
                              sent = [[52]]\<rparr>,
      up_conn = Some \<lparr>RemoteAddr = ''10.0.0.2:22'', closed = 2\<rparr>,
      up_transport = Some \<lparr>sessionID = [0xB0], config_Rand = 0, incoming = [], wresults = [],
          sent = [Marshal_serviceRequest (sample_lib [] []) serviceUserAuth,
                  Marshal_request (sample_lib [] []) sample_none]\<rparr>,
      trace = [EvFindUpstream, EvForwarding]\<rparr>"
  by (simp add: sample_session_def Serve_def newDownstream_def sample_lib_def sample_piper_def
        sample_conn_def Serve_downstream_def nextAuthMsg_def readPacket_def writePacket_def
        sample_Unmarshal_request_def serviceSSH_def additionalChallenge_def Serve_upstream_def
        newUpstream_def Serve_piped_def pipeAuth_def sendAuthReq_def pipeAuth_loop.simps
        pipeAuth_body_def processAuthMsg_def pipeAuth_relay_def msgUserAuthSuccess_def
        loop_def Close_pipedConn_def Close_connection_def Close_netConn_def Let_def
        zero_request_def sample_none_def sample_signer_def)

lemma pipeAuth_next_loop:
  assumes "(pipeAuth_next L piper)\<^sup>*\<^sup>* x y"
  shows "pipeAuth_loop L piper (fst x) (snd x) = pipeAuth_loop L piper (fst y) (snd y)
       \<and> auth_progress (fst x) (fst y)"
  using assms
proof (induction rule: rtranclp_induct)
  case base
  show ?case by (simp add: auth_progress_refl)
next
  case (step y z)
  have b: "pipeAuth_body L piper (fst y) (snd y) = (Next (snd z), fst z)"
    using step.hyps(2) by (simp add: pipeAuth_next_def)
  have "pipeAuth_loop L piper (fst y) (snd y) = pipeAuth_loop L piper (fst z) (snd z)"
    by (subst pipeAuth_loop.simps) (simp add: b)
  moreover have "auth_progress (fst y) (fst z)"
    using pipeAuth_body_progress [of "fst y" L piper "snd y"] b by simp
  ultimately show ?case
    using step.IH auth_progress_trans by auto
qed

lemma Serve_on_pipeAuth_error:
  assumes "newDownstream L c (DownstreamConfig piper) = Inr d"
    and "nextAuthMsg L d = (Inr req, d1)"
    and "additionalChallenge L piper (d1\<lparr>sshConn_user := User req\<rparr>) = (None, d3, evs)"
    and "FindUpstream piper d3 = Inr (upconn, upconfig)"
    and "newUpstream L upconn (RemoteAddr upconn) upconfig = Inr u"
    and "pipeAuth L piper \<lparr>upstream = u, downstream = d3, calls = evs @ [EvFindUpstream]\<rparr> req =
           (Some e, p)"
  shows "returned (Serve L piper c) = Some e
       \<and> closed (down_conn (Serve L piper c)) = Suc (closed c)
       \<and> map_option closed (up_conn (Serve L piper c)) = Some (Suc (closed upconn))"
proof -
  let ?P = "\<lparr>upstream = u, downstream = d3, calls = evs @ [EvFindUpstream]\<rparr>"
  have ap: "auth_progress ?P p"
    using pipeAuth_progress [of ?P L piper req] assms(6) by simp
  have cu: "conn (upstream p) = upconn"
    using ap newUpstream_conn(1) [OF assms(5)] by (simp add: auth_progress_def)
  have c3: "conn d3 = conn d1"
    using additionalChallenge_cases(1) [OF assms(3)] by simp
  have c1: "conn d1 = conn d"
    using nextAuthMsg_conn [of L d] assms(2) by simp
  have cd: "conn (downstream p) = c"
    using ap c3 c1 newDownstream_conn(1) [OF assms(1)] by (simp add: auth_progress_def)
  have sp: "Serve_piped L piper ?P req = (Some e, p)"
    using assms(6) by (simp add: Serve_piped_def)
  have su: "Serve_upstream L piper d3 evs req =
              (Some e, downstream p,
               Some (conn (Close_connection (upstream p)),
                     Some (transport (Close_connection (upstream p)))), calls p)"
    using assms(4,5) sp by (simp add: Serve_upstream_def Let_def)
  have sd: "Serve_downstream L piper d =
              (Some e, downstream p,
               Some (conn (Close_connection (upstream p)),
                     Some (transport (Close_connection (upstream p)))), calls p)"
    using assms(2,3) su by (simp add: Serve_downstream_def)
  show ?thesis
    using assms(1) sd cu cd
    by (simp add: Serve_def Let_def Close_connection_def Close_netConn_def)
qed

lemma nextAuthMsg_Inr_request:
  assumes "nextAuthMsg L d = (Inr m, d')"
  shows "\<exists>r. incoming (transport d) = r # incoming (transport d') \<and> request_of L r = Some m
           \<and> sent (transport d') = sent (transport d)"
  using assms
  by (auto simp: nextAuthMsg_def readPacket_def request_of_def
           split: list.splits prod.splits sum.splits option.splits if_splits)

lemma nextAuthMsg_sent_eq: "nextAuthMsg L d = (r, d') \<Longrightarrow> sent (transport d') = sent (transport d)"
  using nextAuthMsg_sent [of L d] by simp

lemma coerce_sends_failures:
  "\<exists>k. sent (transport (snd (coerce L d))) = sent (transport d) @ replicate k (kbdint_failure L)"
proof (induction L d rule: coerce.induct)
  case (1 L d)
  let ?F = "Marshal_failure L \<lparr>Methods = [''keyboard-interactive''], PartialSuccess = False\<rparr>"
  obtain w t where w: "writePacket (transport d) ?F = (w, t)"
    by (cases "writePacket (transport d) ?F")
  show ?case
  proof (cases w)
    case (Some e)
    have "sent t = sent (transport d)"
      using w Some by (auto simp: writePacket_def split: list.splits option.splits)
    then have "sent (transport (snd (coerce L d))) = sent (transport d) @ replicate 0 (kbdint_failure L)"
      using w Some by (subst coerce.simps) simp
    then show ?thesis by blast
  next
    case None
    have st: "sent t = sent (transport d) @ [?F]"
      using writePacket_sent w None by simp
    obtain n d1 where n: "nextAuthMsg L (d\<lparr>transport := t\<rparr>) = (n, d1)"
      by (cases "nextAuthMsg L (d\<lparr>transport := t\<rparr>)")
    have s1: "sent (transport d1) = sent (transport d) @ replicate 1 (kbdint_failure L)"
      using nextAuthMsg_sent_eq [OF n] st by (simp add: kbdint_failure_def)
    show ?thesis
    proof (cases n)
      case (Inl e)
      then have "snd (coerce L d) = d1"
        using w None n by (subst coerce.simps) simp
      with s1 show ?thesis by metis
    next
      case (Inr req)
      show ?thesis
      proof (cases "Method req = ''keyboard-interactive''")
        case True
        then have "snd (coerce L d) = d1"
          using w None n Inr by (subst coerce.simps) simp
        with s1 show ?thesis by metis
      next
        case False
        have "\<exists>k. sent (transport (snd (coerce L d1))) =
                    sent (transport d1) @ replicate k (kbdint_failure L)"
          using "1.IH" w None n Inr False by auto
        then obtain k where k: "sent (transport (snd (coerce L d1))) =
                             sent (transport d1) @ replicate k (kbdint_failure L)"
          by blast
        have "snd (coerce L d) = snd (coerce L d1)"
          using w None n Inr False by (subst coerce.simps) simp
        with k s1 have "sent (transport (snd (coerce L d))) =
                          sent (transport d) @ replicate (Suc k) (kbdint_failure L)"
          by simp
        then show ?thesis by blast
      qed
    qed
  qed
qed

lemma coerce_until_kbdint:
  "coerce L d = (None, d') \<Longrightarrow>
     \<exists>reqs. reqs \<noteq> []
       \<and> map (request_of L) (take (length reqs) (incoming (transport d))) = map Some reqs
       \<and> incoming (transport d') = drop (length reqs) (incoming (transport d))
       \<and> sent (transport d') = sent (transport d) @ replicate (length reqs) (kbdint_failure L)
       \<and> Method (last reqs) = ''keyboard-interactive''
       \<and> (\<forall>m \<in> set (butlast reqs). Method m \<noteq> ''keyboard-interactive'')"
proof (induction L d arbitrary: d' rule: coerce.induct)
  case (1 L d)
  let ?F = "Marshal_failure L \<lparr>Methods = [''keyboard-interactive''], PartialSuccess = False\<rparr>"
  obtain w t where w: "writePacket (transport d) ?F = (w, t)"
    by (cases "writePacket (transport d) ?F")
  have wn: "w = None"
    using "1.prems" w by (subst (asm) coerce.simps) (auto split: option.splits)
  have st: "sent t = sent (transport d) @ [?F]" and it: "incoming t = incoming (transport d)"
    using writePacket_sent writePacket_incoming_eq w wn by simp_all
  obtain n d1 where n: "nextAuthMsg L (d\<lparr>transport := t\<rparr>) = (n, d1)"
    by (cases "nextAuthMsg L (d\<lparr>transport := t\<rparr>)")
  obtain req where nr: "n = Inr req"
    using "1.prems" w wn n by (subst (asm) coerce.simps) (auto split: sum.splits)
  from nextAuthMsg_Inr_request [of L "d\<lparr>transport := t\<rparr>" req d1] n nr it st
  obtain r where i1: "incoming (transport d) = r # incoming (transport d1)"
    and rq: "request_of L r = Some req"
    and s1: "sent (transport d1) = sent (transport d) @ [kbdint_failure L]"
    by (auto simp: kbdint_failure_def)
  show ?case
  proof (cases "Method req = ''keyboard-interactive''")
    case True
    then have "d' = d1"
      using "1.prems" w wn n nr by (subst (asm) coerce.simps) simp
    then have "[req] \<noteq> []
       \<and> map (request_of L) (take (length [req]) (incoming (transport d))) = map Some [req]
       \<and> incoming (transport d') = drop (length [req]) (incoming (transport d))
       \<and> sent (transport d') = sent (transport d) @ replicate (length [req]) (kbdint_failure L)
       \<and> Method (last [req]) = ''keyboard-interactive''
       \<and> (\<forall>m \<in> set (butlast [req]). Method m \<noteq> ''keyboard-interactive'')"
      using i1 rq s1 True by simp
    then show ?thesis by blast
  next
    case False
    have "coerce L d1 = (None, d')"
      using "1.prems" w wn n nr False by (subst (asm) coerce.simps) simp
    have c1: "coerce L d1 = (None, d')" by fact
    have "\<exists>reqs. reqs \<noteq> []
       \<and> map (request_of L) (take (length reqs) (incoming (transport d1))) = map Some reqs
       \<and> incoming (transport d') = drop (length reqs) (incoming (transport d1))
       \<and> sent (transport d') = sent (transport d1) @ replicate (length reqs) (kbdint_failure L)
       \<and> Method (last reqs) = ''keyboard-interactive''
       \<and> (\<forall>m \<in> set (butlast reqs). Method m \<noteq> ''keyboard-interactive'')"
      using "1.IH" w wn n nr False c1 by auto
    then obtain reqs where q: "reqs \<noteq> []"
       "map (request_of L) (take (length reqs) (incoming (transport d1))) = map Some reqs"
       "incoming (transport d') = drop (length reqs) (incoming (transport d1))"
       "sent (transport d') = sent (transport d1) @ replicate (length reqs) (kbdint_failure L)"
       "Method (last reqs) = ''keyboard-interactive''"
       "\<forall>m \<in> set (butlast reqs). Method m \<noteq> ''keyboard-interactive''"
      by auto
    have "req # reqs \<noteq> []
       \<and> map (request_of L) (take (length (req # reqs)) (incoming (transport d))) =
           map Some (req # reqs)
       \<and> incoming (transport d') = drop (length (req # reqs)) (incoming (transport d))
       \<and> sent (transport d') =
           sent (transport d) @ replicate (length (req # reqs)) (kbdint_failure L)
       \<and> Method (last (req # reqs)) = ''keyboard-interactive''
       \<and> (\<forall>m \<in> set (butlast (req # reqs)). Method m \<noteq> ''keyboard-interactive'')"
      using q i1 rq s1 False by simp
    then show ?thesis by blast
  qed
qed

lemma Serve_piped_trace:
  assumes "Serve_piped L piper p req = (r, p1)"
  shows "\<exists>rest. calls p1 = calls p @ rest \<and> EvFindUpstream \<notin> set rest"
proof -
  obtain ra q where pa: "pipeAuth L piper p req = (ra, q)" by (cases "pipeAuth L piper p req")
  have "auth_progress p q" using pipeAuth_progress [of p L piper req] pa by simp
  then obtain evs where e: "calls q = calls p @ evs" and h: "list_all is_hook_event evs"
    by (auto simp: auth_progress_def)
  have nf: "EvFindUpstream \<notin> set evs"
    using h not_hook_event(2) by (auto simp: list_all_iff)
  show ?thesis
  proof (cases ra)
    case None
    with pa assms have "loop L q = (r, p1)" by (simp add: Serve_piped_def)
    from loop_closes [OF this] have "calls p1 = calls p @ (evs @ [EvForwarding])"
      using e by simp
    moreover have "EvFindUpstream \<notin> set (evs @ [EvForwarding])" using nf by simp
    ultimately show ?thesis by blast
  next
    case (Some e1)
    with pa assms have "p1 = q" by (simp add: Serve_piped_def)
    with e nf show ?thesis by blast
  qed
qed

lemma Serve_upstream_trace:
  assumes "Serve_upstream L piper d evs req = (r, d', up, tr)"
  shows "\<exists>rest. tr = evs @ EvFindUpstream # rest \<and> EvFindUpstream \<notin> set rest"
proof (cases "FindUpstream piper d")
  case (Inl e)
  with assms have "tr = evs @ EvFindUpstream # []" by (auto simp: Serve_upstream_def)
  then show ?thesis by auto
next
  case (Inr a)
  obtain upconn upconfig where a: "a = (upconn, upconfig)" by (cases a)
  show ?thesis
  proof (cases "newUpstream L upconn (RemoteAddr upconn) upconfig")
    case (Inl b)
    obtain e c where b: "b = (e, c)" by (cases b)
    with assms Inr a Inl have "tr = evs @ EvFindUpstream # []" by (auto simp: Serve_upstream_def)
    then show ?thesis by auto
  next
    case u: (Inr u)
    let ?p = "\<lparr>upstream = u, downstream = d, calls = evs @ [EvFindUpstream]\<rparr>"
    obtain r1 p1 where sp: "Serve_piped L piper ?p req = (r1, p1)"
      by (cases "Serve_piped L piper ?p req")
    have "tr = calls p1"
      using assms Inr a u sp by (simp add: Serve_upstream_def Let_def)
    with Serve_piped_trace [OF sp] show ?thesis by auto
  qed
qed

lemma additionalChallenge_run:
  assumes "AdditionalChallenge piper = Some challenge"
    and "coerce L d = (None, d1)" and "challenge d1 = ((ok, err), t)"
  shows "additionalChallenge L piper d =
           (if err \<noteq> None then err else if \<not> ok then Some AdditionalChallengeFailed else None,
            d1\<lparr>transport := t\<rparr>, [EvAdditionalChallenge ok err])"
  using assms by (simp add: additionalChallenge_def)

lemma Serve_challenge_trace:
  assumes "AdditionalChallenge piper = Some challenge"
  shows "(trace (Serve L piper c) = [] \<and> returned (Serve L piper c) \<noteq> None
            \<and> up_conn (Serve L piper c) = None)
       \<or> (\<exists>ok err. trace (Serve L piper c) = [EvAdditionalChallenge ok err]
            \<and> (\<not> ok \<or> err \<noteq> None)
            \<and> returned (Serve L piper c) =
                (if err \<noteq> None then err else Some AdditionalChallengeFailed)
            \<and> up_conn (Serve L piper c) = None)
       \<or> (\<exists>rest. trace (Serve L piper c) =
                    EvAdditionalChallenge True None # EvFindUpstream # rest
            \<and> EvFindUpstream \<notin> set rest)"
proof (cases "newDownstream L c (DownstreamConfig piper)")
  case (Inl a)
  then show ?thesis by (cases a) (simp add: Serve_def)
next
  case (Inr d)
  obtain r d' up tr where sd: "Serve_downstream L piper d = (r, d', up, tr)"
    by (cases "Serve_downstream L piper d") auto
  have o: "returned (Serve L piper c) = r" "up_conn (Serve L piper c) = map_option fst up"
    "trace (Serve L piper c) = tr"
    using Inr sd by (simp_all add: Serve_def Let_def)
  obtain n d1 where n: "nextAuthMsg L d = (n, d1)" by (cases "nextAuthMsg L d")
  show ?thesis
  proof (cases n)
    case (Inl e)
    with sd n show ?thesis unfolding o by (auto simp: Serve_downstream_def)
  next
    case (Inr req)
    let ?d2 = "d1\<lparr>sshConn_user := User req\<rparr>"
    obtain ra d3 evs where ac: "additionalChallenge L piper ?d2 = (ra, d3, evs)"
      by (cases "additionalChallenge L piper ?d2")
    from additionalChallenge_cases(3) [OF ac] assms
    have k: "(evs = [] \<and> ra \<noteq> None)
         \<or> (\<exists>ok err. evs = [EvAdditionalChallenge ok err]
               \<and> ra = (if err \<noteq> None then err
                       else if \<not> ok then Some AdditionalChallengeFailed else None))"
      by simp
    show ?thesis
    proof (cases ra)
      case (Some e)
      with sd n Inr ac have res: "r = Some e" "up = None" "tr = evs"
        by (simp_all add: Serve_downstream_def)
      from k Some show ?thesis unfolding o res
        by (auto split: if_splits)
    next
      case None
      with k have ev: "evs = [EvAdditionalChallenge True None]"
        by (auto split: if_splits)
      from sd n Inr ac None have su: "Serve_upstream L piper d3 evs req = (r, d', up, tr)"
        by (simp add: Serve_downstream_def)
      from Serve_upstream_trace [OF su] ev show ?thesis unfolding o by auto
    qed
  qed
qed

lemma sample_refused_session_eval:
  "sample_refused_session =
     \<lparr>returned = Some AdditionalChallengeFailed,
      down_conn = \<lparr>RemoteAddr = ''192.0.2.7:50000'', closed = 1\<rparr>,
      down_transport = Some \<lparr>sessionID = [0xD0], config_Rand = 0, incoming = [], wresults = [],
          sent = [kbdint_failure (sample_lib [] []), kbdint_failure (sample_lib [] [])]\<rparr>,
      up_conn = None,
      up_transport = None,
      trace = [EvAdditionalChallenge False None]\<rparr>"
  by (simp add: sample_refused_session_def Serve_def newDownstream_def sample_lib_def
        sample_piper_def sample_conn_def Serve_downstream_def nextAuthMsg_def readPacket_def
        writePacket_def sample_Unmarshal_request_def serviceSSH_def additionalChallenge_def
        coerce.simps sample_challenge_def kbdint_failure_def
        Close_connection_def Close_netConn_def Let_def zero_request_def)

lemma check400_None_iff:
  "check400 H file usr = None \<longleftrightarrow>
     (\<exists>f mode. os_Open H (userSpecFile H usr file) = Inr f \<and> Stat f = Inr mode
        \<and> Perm mode = 0x100)"
  by (auto simp: check400_def Let_def split: sum.splits)

lemma Serve_on_FindUpstream_error:
  assumes "newDownstream L c (DownstreamConfig piper) = Inr d"
    and "nextAuthMsg L d = (Inr req, d1)"
    and "additionalChallenge L piper (d1\<lparr>sshConn_user := User req\<rparr>) = (None, d3, evs)"
    and "FindUpstream piper d3 = Inl e"
  shows "returned (Serve L piper c) = Some e \<and> up_conn (Serve L piper c) = None"
proof -
  have su: "Serve_upstream L piper d3 evs req = (Some e, d3, None, evs @ [EvFindUpstream])"
    using assms(4) by (simp add: Serve_upstream_def)
  have sd: "Serve_downstream L piper d = (Some e, d3, None, evs @ [EvFindUpstream])"
    using assms(2,3) su by (simp add: Serve_downstream_def)
  show ?thesis
    using assms(1) sd by (simp add: Serve_def Let_def)
qed

section \<open>Claims\<close>

text \<open>
  C5. Whenever \<open>MapPublicKey\<close> returns no signer or an error for a publickey request
  (one that parses), \<open>processAuthMsg\<close> returns, with a nil error, a request whose
  method is \<open>none\<close>, whose service is \<open>ssh-connection\<close> and whose user is the user
  of the incoming request; and when the write to the upstream succeeds, that request is
  the one packet the iteration of \<open>pipeAuth\<close> adds to what was sent upstream.
\<close>

theorem unmapped_key_sends_none:
  assumes "Method msg = ''publickey''"
    and "parsePublicKeyMsg L msg = Inr (downKey, isQuery, sig)"
    and "MapPublicKey piper (downstream p) downKey = (s, e)"
    and "s = None \<or> e \<noteq> None"
  shows "fst (processAuthMsg L piper p msg) = (Some (noneAuthMsg (User msg)), None)
       \<and> Method (noneAuthMsg (User msg)) = ''none''
       \<and> Service (noneAuthMsg (User msg)) = ''ssh-connection''
       \<and> User (noneAuthMsg (User msg)) = User msg
       \<and> (write_ok (transport (upstream p)) \<longrightarrow>
            sent (transport (upstream (snd (pipeAuth_body L piper p msg)))) =
              sent (transport (upstream p)) @ [Marshal_request L (noneAuthMsg (User msg))])"
proof -
  let ?p1 = "p\<lparr>calls := calls p @ [EvMapPublicKey downKey]\<rparr>"
  have pa: "processAuthMsg L piper p msg = ((Some (noneAuthMsg (User msg)), None), ?p1)"
    using assms by (rule processAuthMsg_unmapped)
  have up: "upstream (snd (pipeAuth_body L piper p msg)) =
              upstream (snd (pipeAuth_relay L ?p1 (Some (noneAuthMsg (User msg)))))"
    using pa by (rule pipeAuth_body_upstream)
  have "write_ok (transport (upstream p)) \<Longrightarrow>
          sent (transport (upstream (snd (pipeAuth_body L piper p msg)))) =
            sent (transport (upstream p)) @ [Marshal_request L (noneAuthMsg (User msg))]"
    using pipeAuth_relay_sent [of ?p1 L "noneAuthMsg (User msg)"] up by simp
  then show ?thesis
    using pa by (simp add: noneAuthMsg_def serviceSSH_def)
qed

theorem unmapped_key_sends_none_witness:
  "Method sample_other_query = ''publickey''
   \<and> parsePublicKeyMsg (sample_lib [] []) sample_other_query =
         Inr (\<lparr>key_Type = ''ssh-rsa'', key_Marshal = [4, 5, 6]\<rparr>, True, None)
   \<and> MapPublicKey (sample_piper sample_signer None) (downstream (sample_pipe [] []))
         \<lparr>key_Type = ''ssh-rsa'', key_Marshal = [4, 5, 6]\<rparr> = (None, None)
   \<and> write_ok (transport (upstream (sample_pipe [] [])))
   \<and> fst (processAuthMsg (sample_lib [] []) (sample_piper sample_signer None) (sample_pipe [] []) sample_other_query) =
         (Some \<lparr>User = ''alice'', Service = ''ssh-connection'', Method = ''none'', Payload = []\<rparr>,
          None)
   \<and> sent (transport (upstream (snd (pipeAuth_body (sample_lib [] [])
           (sample_piper sample_signer None) (sample_pipe [] []) sample_other_query)))) =
         [Marshal_request (sample_lib [] [])
            \<lparr>User = ''alice'', Service = ''ssh-connection'', Method = ''none'', Payload = []\<rparr>]"
proof -
  let ?k = "\<lparr>key_Type = ''ssh-rsa'', key_Marshal = [4, 5, 6]\<rparr>"
  have h1: "Method sample_other_query = ''publickey''"
    by (simp add: sample_other_query_def)
  have h2: "parsePublicKeyMsg (sample_lib [] []) sample_other_query = Inr (?k, True, None)"
    by (simp add: parsePublicKeyMsg_def sample_lib_def sample_other_query_def
          sample_parseString_def be32_def ssh_rsa_bytes)
  have h3: "MapPublicKey (sample_piper sample_signer None) (downstream (sample_pipe [] [])) ?k = (None, None)"
    by (simp add: sample_piper_def)
  have h4: "(None :: signer option) = None \<or> (None :: error option) \<noteq> None"
    by simp
  have w: "write_ok (transport (upstream (sample_pipe [] [])))"
    by (simp add: write_ok_def sample_pipe_def sample_transport_def)
  have u: "User sample_other_query = ''alice''"
    by (simp add: sample_other_query_def)
  have s0: "sent (transport (upstream (sample_pipe [] []))) = []"
    by (simp add: sample_pipe_def sample_transport_def)
  show ?thesis
    using unmapped_key_sends_none [OF h1 h2 h3 h4] h1 h2 h3 w
    by (simp add: u s0 noneAuthMsg_def serviceSSH_def)
qed

text \<open>
  C9. If \<open>signAgain\<close> returns an error on a verified signed publickey request,
  \<open>processAuthMsg\<close> returns a nil message with a nil error: the error went to the
  \<open>err\<close> declared inside the \<open>else\<close> branch, and the test after the branch reads the
  outer one. \<open>pipeAuth\<close> then takes the iteration for a suppressed round trip: it
  leaves the upstream as it was, reports no error, and its next action is to read the
  next downstream request.
\<close>

theorem failed_resign_is_swallowed:
  assumes "Method msg = ''publickey''"
    and "parsePublicKeyMsg L msg = Inr (downKey, False, Some sg)"
    and "MapPublicKey piper (downstream p) downKey = (Some signr, None)"
    and "checkPublicKey L (p\<lparr>calls := calls p @ [EvMapPublicKey downKey]\<rparr>) msg downKey sg =
           ((True, None), p2)"
    and "signAgain L p2 msg signr downKey = ((m, Some e), p3)"
  shows "processAuthMsg L piper p msg = ((None, None), p3)
       \<and> upstream p3 = upstream p
       \<and> pipeAuth_body L piper p msg =
           (case nextAuthMsg L (downstream p) of
              (Inl err, d) \<Rightarrow> (Return (Some err), p3\<lparr>downstream := d\<rparr>)
            | (Inr m', d) \<Rightarrow> (Next m', p3\<lparr>downstream := d\<rparr>))
       \<and> upstream (snd (pipeAuth_body L piper p msg)) = upstream p"
proof -
  have m: "m = None" and u3: "upstream p3 = upstream p2" and d3: "downstream p3 = downstream p2"
    using signAgain_error [OF assms(5)] by simp_all
  have u2: "upstream p2 = upstream p" and d2: "downstream p2 = downstream p"
    using checkPublicKey_conns [OF assms(4)] by simp_all
  have pa: "processAuthMsg L piper p msg = ((None, None), p3)"
    using assms m by (simp add: processAuthMsg_def Let_def)
  have body: "pipeAuth_body L piper p msg =
           (case nextAuthMsg L (downstream p) of
              (Inl err, d) \<Rightarrow> (Return (Some err), p3\<lparr>downstream := d\<rparr>)
            | (Inr m', d) \<Rightarrow> (Next m', p3\<lparr>downstream := d\<rparr>))"
    using pipeAuth_body_suppressed [OF pa] d3 d2 by simp
  have "upstream (snd (pipeAuth_body L piper p msg)) = upstream p"
    unfolding body using u3 u2 by (simp split: prod.splits sum.splits)
  with pa body u3 u2 show ?thesis by simp
qed

theorem failed_resign_is_swallowed_witness:
  "Method (sample_signed [0x73,0x73,0x68,0x2d,0x72,0x73,0x61]) = ''publickey''
   \<and> Sign (sample_lib [] []) broken_signer 0 [0xB0, 50, 0x61,0x6c,0x69,0x63,0x65, 9, 9] =
         Inl (Failure ''ssh: signing failed'')
   \<and> fst (processAuthMsg (sample_lib [] []) (sample_piper broken_signer None)
             (sample_pipe [[50, 1]] []) (sample_signed [0x73,0x73,0x68,0x2d,0x72,0x73,0x61])) =
         (None, None)
   \<and> fst (pipeAuth_body (sample_lib [] []) (sample_piper broken_signer None)
             (sample_pipe [[50, 1]] []) (sample_signed [0x73,0x73,0x68,0x2d,0x72,0x73,0x61])) =
         Next \<lparr>User = ''alice'', Service = ''ssh-connection'', Method = ''none'', Payload = []\<rparr>
   \<and> sent (transport (upstream (snd (pipeAuth_body (sample_lib [] [])
             (sample_piper broken_signer None) (sample_pipe [[50, 1]] [])
             (sample_signed [0x73,0x73,0x68,0x2d,0x72,0x73,0x61]))))) = []"
proof -
  let ?L = "sample_lib [] []"
  let ?msg = "sample_signed [0x73,0x73,0x68,0x2d,0x72,0x73,0x61]"
  let ?k = "\<lparr>key_Type = ''ssh-rsa'', key_Marshal = [1, 2, 3]\<rparr>"
  let ?sg = "\<lparr>Format = ''ssh-rsa'', Blob = [1,2,3, 0xD0, 50, 0x61,0x6c,0x69,0x63,0x65, 1,2,3]\<rparr>"
  let ?p = "sample_pipe [[50, 1]] []"
  let ?p1 = "?p\<lparr>calls := calls ?p @ [EvMapPublicKey ?k]\<rparr>"
  let ?p2 = "snd (checkPublicKey ?L ?p1 ?msg ?k ?sg)"
  let ?p3 = "snd (signAgain ?L ?p2 ?msg broken_signer ?k)"
  have c0: "calls ?p = []"
    by (simp add: sample_pipe_def)
  have h1: "Method ?msg = ''publickey''"
    by (simp add: sample_signed_def)
  have h2: "parsePublicKeyMsg ?L ?msg = Inr (?k, False, Some ?sg)"
    by (rule parse_sample_signed)
  have h3: "MapPublicKey (sample_piper broken_signer None) (downstream ?p) ?k =
              (Some broken_signer, None)"
    by (simp add: sample_piper_def)
  have f4: "fst (checkPublicKey ?L ?p1 ?msg ?k ?sg) = (True, None)"
    by (simp add: checkPublicKey_def sample_lib_def sample_pipe_def sample_transport_def
          sample_signed_def alice_bytes Let_def)
  have h4: "checkPublicKey ?L ?p1 ?msg ?k ?sg = ((True, None), ?p2)"
    using f4 by (simp add: prod_eq_iff)
  have f5: "fst (signAgain ?L ?p2 ?msg broken_signer ?k) =
              (None, Some (Failure ''ssh: signing failed''))"
    by (simp add: signAgain_def sample_lib_def broken_signer_def Let_def)
  have h5: "signAgain ?L ?p2 ?msg broken_signer ?k =
              ((None, Some (Failure ''ssh: signing failed'')), ?p3)"
    using f5 by (simp add: prod_eq_iff)
  have n: "nextAuthMsg ?L (downstream ?p) =
             (Inr \<lparr>User = ''alice'', Service = ''ssh-connection'', Method = ''none'', Payload = []\<rparr>,
              (downstream ?p)\<lparr>transport := (transport (downstream ?p))\<lparr>incoming := []\<rparr>\<rparr>)"
    by (simp add: nextAuthMsg_def readPacket_def sample_lib_def sample_pipe_def
          sample_transport_def sample_Unmarshal_request_def serviceSSH_def)
  have s0: "sent (transport (upstream ?p)) = []"
    by (simp add: sample_pipe_def sample_transport_def)
  have sf: "Sign ?L broken_signer 0 [0xB0, 50, 0x61,0x6c,0x69,0x63,0x65, 9, 9] =
              Inl (Failure ''ssh: signing failed'')"
    by (simp add: sample_lib_def broken_signer_def)
  show ?thesis
    using failed_resign_is_swallowed [OF h1 h2 h3 h4 h5] h1 sf
    by (simp add: n s0 c0)
qed

text \<open>
  C3, as stated, fails: a publickey request that advertises an algorithm outside the
  accepted set (\<open>ssh-dss\<close> under the sample library) does not become a \<open>none\<close>
  request. \<open>parsePublicKeyMsg\<close> returns the error \<open>algorithm not accepted\<close>,
  \<open>processAuthMsg\<close> returns it, and \<open>pipeAuth\<close> ends with it.
\<close>

theorem unaccepted_algorithm_counterexample:
  "processAuthMsg (sample_lib [] []) (sample_piper sample_signer None) (sample_pipe [] [])
       sample_dss_query =
     ((None, Some (AlgorithmNotAccepted ''ssh-dss'')), sample_pipe [] [])
   \<and> pipeAuth_loop (sample_lib [] []) (sample_piper sample_signer None) (sample_pipe [] [])
       sample_dss_query =
     (Some (AlgorithmNotAccepted ''ssh-dss''), sample_pipe [] [])"
proof -
  have p: "parsePublicKeyMsg (sample_lib [] []) sample_dss_query =
             Inl (AlgorithmNotAccepted ''ssh-dss'')"
    by (simp add: parsePublicKeyMsg_def sample_lib_def sample_dss_query_def
          sample_parseString_def be32_def ssh_dss_bytes)
  have m: "Method sample_dss_query = ''publickey''"
    by (simp add: sample_dss_query_def)
  have h: "processAuthMsg (sample_lib [] []) (sample_piper sample_signer None)
             (sample_pipe [] []) sample_dss_query =
           ((None, Some (AlgorithmNotAccepted ''ssh-dss'')), sample_pipe [] [])"
    by (simp add: processAuthMsg_def p m)
  show ?thesis
    using h pipeAuth_loop_hook_error [OF h] by simp
qed

text \<open>
  C3, amended. A publickey request whose advertised algorithm name is not accepted
  makes \<open>parsePublicKeyMsg\<close> fail; the hook returns that error and \<open>pipeAuth\<close>
  returns it. A signed request that parses, whose key is mapped to a signer and whose
  signature format is not accepted, is a failed verification: the hook returns a
  \<open>none\<close> request for the user of the request, with a nil error, and neither verifies
  nor signs.
\<close>

theorem unaccepted_algorithm_or_format:
  "(Method msg = ''publickey'' \<and> Payload msg = b # rest
      \<and> parseString L rest = Some (algoBytes, rest1)
      \<and> \<not> isAcceptableAlgo L (string_of_bytes algoBytes)
    \<longrightarrow> processAuthMsg L piper p msg =
          ((None, Some (AlgorithmNotAccepted (string_of_bytes algoBytes))), p)
      \<and> pipeAuth_loop L piper p msg =
          (Some (AlgorithmNotAccepted (string_of_bytes algoBytes)), p))
   \<and> (Method msg = ''publickey''
      \<and> parsePublicKeyMsg L msg = Inr (downKey, False, Some sg)
      \<and> MapPublicKey piper (downstream p) downKey = (Some signr, None)
      \<and> \<not> isAcceptableAlgo L (Format sg)
    \<longrightarrow> processAuthMsg L piper p msg =
          ((Some (noneAuthMsg (User msg)), None),
           p\<lparr>calls := calls p @ [EvMapPublicKey downKey]\<rparr>))"
proof (intro conjI impI)
  assume a: "Method msg = ''publickey'' \<and> Payload msg = b # rest
      \<and> parseString L rest = Some (algoBytes, rest1)
      \<and> \<not> isAcceptableAlgo L (string_of_bytes algoBytes)"
  then have "parsePublicKeyMsg L msg = Inl (AlgorithmNotAccepted (string_of_bytes algoBytes))"
    by (simp add: parsePublicKeyMsg_def)
  with a show h: "processAuthMsg L piper p msg =
          ((None, Some (AlgorithmNotAccepted (string_of_bytes algoBytes))), p)"
    by (simp add: processAuthMsg_def)
  show "pipeAuth_loop L piper p msg =
          (Some (AlgorithmNotAccepted (string_of_bytes algoBytes)), p)"
    using pipeAuth_loop_hook_error [OF h] .
next
  assume "Method msg = ''publickey''
      \<and> parsePublicKeyMsg L msg = Inr (downKey, False, Some sg)
      \<and> MapPublicKey piper (downstream p) downKey = (Some signr, None)
      \<and> \<not> isAcceptableAlgo L (Format sg)"
  then show "processAuthMsg L piper p msg =
          ((Some (noneAuthMsg (User msg)), None),
           p\<lparr>calls := calls p @ [EvMapPublicKey downKey]\<rparr>)"
    by (simp add: processAuthMsg_def checkPublicKey_def Let_def)
qed

theorem unaccepted_algorithm_or_format_witness:
  "processAuthMsg (sample_lib [] []) (sample_piper sample_signer None) (sample_pipe [] [])
       sample_dss_query =
     ((None, Some (AlgorithmNotAccepted ''ssh-dss'')), sample_pipe [] [])
   \<and> processAuthMsg (sample_lib [] []) (sample_piper sample_signer None) (sample_pipe [] [])
       (sample_signed [0x73,0x73,0x68,0x2d,0x64,0x73,0x73]) =
     ((Some \<lparr>User = ''alice'', Service = ''ssh-connection'', Method = ''none'', Payload = []\<rparr>,
       None),
      (sample_pipe [] [])\<lparr>calls := [EvMapPublicKey \<lparr>key_Type = ''ssh-rsa'', key_Marshal = [1, 2, 3]\<rparr>]\<rparr>)"
proof -
  let ?L = "sample_lib [] []"
  let ?k = "\<lparr>key_Type = ''ssh-rsa'', key_Marshal = [1, 2, 3]\<rparr>"
  let ?sg = "\<lparr>Format = ''ssh-dss'', Blob = [1,2,3, 0xD0, 50, 0x61,0x6c,0x69,0x63,0x65, 1,2,3]\<rparr>"
  have a1: "Method sample_dss_query = ''publickey''
      \<and> Payload sample_dss_query = 0 # [0,0,0,7, 0x73,0x73,0x68,0x2d,0x64,0x73,0x73, 0,0,0,3, 1,2,3]
      \<and> parseString ?L [0,0,0,7, 0x73,0x73,0x68,0x2d,0x64,0x73,0x73, 0,0,0,3, 1,2,3] =
           Some ([0x73,0x73,0x68,0x2d,0x64,0x73,0x73], [0,0,0,3, 1,2,3])
      \<and> \<not> isAcceptableAlgo ?L (string_of_bytes [0x73,0x73,0x68,0x2d,0x64,0x73,0x73])"
    by (simp add: sample_dss_query_def sample_lib_def sample_parseString_def be32_def ssh_dss_bytes)
  have a2: "Method (sample_signed [0x73,0x73,0x68,0x2d,0x64,0x73,0x73]) = ''publickey''
      \<and> parsePublicKeyMsg ?L (sample_signed [0x73,0x73,0x68,0x2d,0x64,0x73,0x73]) =
           Inr (?k, False, Some ?sg)
      \<and> MapPublicKey (sample_piper sample_signer None) (downstream (sample_pipe [] [])) ?k =
           (Some sample_signer, None)
      \<and> \<not> isAcceptableAlgo ?L (Format ?sg)"
    by (simp add: parse_sample_dss_signed) (simp add: sample_signed_def sample_piper_def sample_lib_def)
  have u: "User (sample_signed [0x73,0x73,0x68,0x2d,0x64,0x73,0x73]) = ''alice''"
    by (simp add: sample_signed_def)
  have c0: "calls (sample_pipe [] []) = []"
    by (simp add: sample_pipe_def)
  from unaccepted_algorithm_or_format
         [where msg = sample_dss_query and b = 0
            and rest = "[0,0,0,7, 0x73,0x73,0x68,0x2d,0x64,0x73,0x73, 0,0,0,3, 1,2,3]"
            and L = ?L and algoBytes = "[0x73,0x73,0x68,0x2d,0x64,0x73,0x73]"
            and ?rest1.0 = "[0,0,0,3, 1,2,3]"
            and piper = "sample_piper sample_signer None" and p = "sample_pipe [] []"]
       a1
  have r1: "processAuthMsg ?L (sample_piper sample_signer None) (sample_pipe [] []) sample_dss_query =
     ((None, Some (AlgorithmNotAccepted ''ssh-dss'')), sample_pipe [] [])"
    by (simp add: ssh_dss_bytes)
  from unaccepted_algorithm_or_format
         [where msg = "sample_signed [0x73,0x73,0x68,0x2d,0x64,0x73,0x73]" and L = ?L
            and piper = "sample_piper sample_signer None" and p = "sample_pipe [] []"
            and downKey = ?k and sg = ?sg and signr = sample_signer]
       a2
  have r2: "processAuthMsg ?L (sample_piper sample_signer None) (sample_pipe [] [])
       (sample_signed [0x73,0x73,0x68,0x2d,0x64,0x73,0x73]) =
     ((Some (noneAuthMsg ''alice''), None),
      (sample_pipe [] [])\<lparr>calls := [EvMapPublicKey ?k]\<rparr>)"
    by (simp add: u c0)
  show ?thesis
    using r1 r2 by (simp add: noneAuthMsg_def serviceSSH_def)
qed

text \<open>
  C4. Take an iteration of \<open>pipeAuth\<close> in which \<open>processAuthMsg\<close> returns without
  error. If it returns a request and the transports work (the write to the upstream
  succeeds, the upstream's next packet is \<open>b # rest\<close>, the write to the downstream
  succeeds), the iteration adds exactly that request to what was sent upstream, takes
  exactly one packet from the upstream, adds that packet unchanged to what was sent
  downstream, and returns success if and only if \<open>b\<close> is \<open>USERAUTH_SUCCESS\<close>. If
  it returns nil, the iteration leaves the upstream untouched and reads the next
  downstream request. In every case a return of success means that a request was
  relayed and answered by a packet that starts with \<open>USERAUTH_SUCCESS\<close>.
\<close>

theorem relay_one_round_trip:
  assumes "processAuthMsg L piper pipe msg = ((m, None), pipe1)"
  shows "(m = Some req \<and> write_ok (transport (upstream pipe1))
            \<and> incoming (transport (upstream pipe1)) = Inr (b # rest) # ins
            \<and> write_ok (transport (downstream pipe1))
          \<longrightarrow> sent (transport (upstream (snd (pipeAuth_body L piper pipe msg)))) =
                sent (transport (upstream pipe1)) @ [Marshal_request L req]
              \<and> incoming (transport (upstream (snd (pipeAuth_body L piper pipe msg)))) = ins
              \<and> sent (transport (downstream (snd (pipeAuth_body L piper pipe msg)))) =
                sent (transport (downstream pipe1)) @ [b # rest]
              \<and> (fst (pipeAuth_body L piper pipe msg) = Return None
                   \<longleftrightarrow> b = msgUserAuthSuccess))
       \<and> (m = None
          \<longrightarrow> upstream (snd (pipeAuth_body L piper pipe msg)) = upstream pipe1
              \<and> pipeAuth_body L piper pipe msg =
                  (case nextAuthMsg L (downstream pipe1) of
                     (Inl err, d) \<Rightarrow> (Return (Some err), pipe1\<lparr>downstream := d\<rparr>)
                   | (Inr m', d) \<Rightarrow> (Next m', pipe1\<lparr>downstream := d\<rparr>)))
       \<and> (fst (pipeAuth_body L piper pipe msg) = Return None
          \<longrightarrow> (\<exists>req' b' rest' t. m = Some req'
                \<and> readPacket (snd (writePacket (transport (upstream pipe1))
                                     (Marshal_request L req'))) = (Inr (b' # rest'), t)
                \<and> b' = msgUserAuthSuccess))"
proof (intro conjI impI)
  assume a: "m = Some req \<and> write_ok (transport (upstream pipe1))
            \<and> incoming (transport (upstream pipe1)) = Inr (b # rest) # ins
            \<and> write_ok (transport (downstream pipe1))"
  let ?q = "pipe1\<lparr>upstream := (upstream pipe1)\<lparr>transport := (transport (upstream pipe1))
                    \<lparr>wresults := tl (wresults (transport (upstream pipe1))),
                     sent := sent (transport (upstream pipe1)) @ [Marshal_request L req],
                     incoming := ins\<rparr>\<rparr>,
              downstream := (downstream pipe1)\<lparr>transport := (transport (downstream pipe1))
                    \<lparr>wresults := tl (wresults (transport (downstream pipe1))),
                     sent := sent (transport (downstream pipe1)) @ [b # rest]\<rparr>\<rparr>\<rparr>"
  have r: "pipeAuth_relay L pipe1 (Some req) =
             (if b = msgUserAuthSuccess then Some None else None, ?q)"
    using a by (intro pipeAuth_relay_ok) simp_all
  have ns: "sent (transport (snd (nextAuthMsg L (downstream ?q)))) = sent (transport (downstream ?q))"
    by (rule nextAuthMsg_sent)
  have body: "pipeAuth_body L piper pipe msg =
     (if b = msgUserAuthSuccess then (Return None, ?q)
      else (case nextAuthMsg L (downstream ?q) of
              (Inl err1, d) \<Rightarrow> (Return (Some err1), ?q\<lparr>downstream := d\<rparr>)
            | (Inr m', d) \<Rightarrow> (Next m', ?q\<lparr>downstream := d\<rparr>)))"
    using assms a r by (simp add: pipeAuth_body_def)
  show "sent (transport (upstream (snd (pipeAuth_body L piper pipe msg)))) =
                sent (transport (upstream pipe1)) @ [Marshal_request L req]"
    unfolding body by (simp split: prod.splits sum.splits)
  show "incoming (transport (upstream (snd (pipeAuth_body L piper pipe msg)))) = ins"
    unfolding body by (simp split: prod.splits sum.splits)
  show "sent (transport (downstream (snd (pipeAuth_body L piper pipe msg)))) =
                sent (transport (downstream pipe1)) @ [b # rest]"
    unfolding body using ns by (auto split: prod.splits sum.splits)
  show "fst (pipeAuth_body L piper pipe msg) = Return None \<longleftrightarrow> b = msgUserAuthSuccess"
    unfolding body by (simp split: prod.splits sum.splits)
next
  assume n: "m = None"
  then have pa: "processAuthMsg L piper pipe msg = ((None, None), pipe1)"
    using assms by simp
  show b: "pipeAuth_body L piper pipe msg =
                  (case nextAuthMsg L (downstream pipe1) of
                     (Inl err, d) \<Rightarrow> (Return (Some err), pipe1\<lparr>downstream := d\<rparr>)
                   | (Inr m', d) \<Rightarrow> (Next m', pipe1\<lparr>downstream := d\<rparr>))"
    by (rule pipeAuth_body_suppressed [OF pa])
  show "upstream (snd (pipeAuth_body L piper pipe msg)) = upstream pipe1"
    unfolding b by (simp split: prod.splits sum.splits)
next
  assume s: "fst (pipeAuth_body L piper pipe msg) = Return None"
  obtain r q where rq: "pipeAuth_relay L pipe1 m = (r, q)"
    by (cases "pipeAuth_relay L pipe1 m")
  have "r = Some None"
    using s assms rq
    by (auto simp: pipeAuth_body_def split: option.splits prod.splits sum.splits)
  with rq show "\<exists>req' b' rest' t. m = Some req'
                \<and> readPacket (snd (writePacket (transport (upstream pipe1))
                                     (Marshal_request L req'))) = (Inr (b' # rest'), t)
                \<and> b' = msgUserAuthSuccess"
    using pipeAuth_relay_success [of L pipe1 m q] by simp
qed

theorem relay_one_round_trip_witness:
  "processAuthMsg (sample_lib [] []) (sample_piper sample_signer None)
       (sample_pipe [[50, 1]] [[52]]) sample_none =
     ((Some sample_none, None), sample_pipe [[50, 1]] [[52]])
   \<and> write_ok (transport (upstream (sample_pipe [[50, 1]] [[52]])))
   \<and> incoming (transport (upstream (sample_pipe [[50, 1]] [[52]]))) = Inr (52 # []) # []
   \<and> write_ok (transport (downstream (sample_pipe [[50, 1]] [[52]])))
   \<and> sent (transport (upstream (snd (pipeAuth_body (sample_lib [] [])
         (sample_piper sample_signer None) (sample_pipe [[50, 1]] [[52]]) sample_none)))) =
       [Marshal_request (sample_lib [] []) sample_none]
   \<and> sent (transport (downstream (snd (pipeAuth_body (sample_lib [] [])
         (sample_piper sample_signer None) (sample_pipe [[50, 1]] [[52]]) sample_none)))) =
       [[52]]
   \<and> fst (pipeAuth_body (sample_lib [] []) (sample_piper sample_signer None)
         (sample_pipe [[50, 1]] [[52]]) sample_none) = Return None"
proof -
  let ?L = "sample_lib [] []"
  let ?p = "sample_pipe [[50, 1]] [[52]]"
  have h: "processAuthMsg ?L (sample_piper sample_signer None) ?p sample_none =
             ((Some sample_none, None), ?p)"
    by (simp add: processAuthMsg_def sample_none_def)
  have a: "Some sample_none = Some sample_none \<and> write_ok (transport (upstream ?p))
            \<and> incoming (transport (upstream ?p)) = Inr (52 # []) # []
            \<and> write_ok (transport (downstream ?p))"
    by (simp add: write_ok_def sample_pipe_def sample_transport_def)
  have s0: "sent (transport (upstream ?p)) = []" "sent (transport (downstream ?p)) = []"
    by (simp_all add: sample_pipe_def sample_transport_def)
  show ?thesis
    using relay_one_round_trip [OF h, where req = sample_none and b = 52 and rest = "[]" and ins = "[]"]
      h a
    by (simp add: s0 msgUserAuthSuccess_def)
qed

text \<open>
  C2. Take a publickey query whose key \<open>MapPublicKey\<close> maps to a signer. If
  \<open>validateKey\<close> reports that the upstream accepts the signer's key, the hook writes
  to the downstream one \<open>USERAUTH_PK_OK\<close> whose algorithm is \<open>downKey.Type()\<close> and
  whose key is \<open>downKey.Marshal()\<close>, and returns a nil request (with the error of
  that write, nil when it succeeds); \<open>pipeAuth\<close> then leaves the upstream as
  \<open>validateKey\<close> left it. If \<open>validateKey\<close> reports that the key is not accepted,
  the hook returns a \<open>none\<close> request.
\<close>

theorem query_answered_with_downstream_key:
  assumes "Method msg = ''publickey''"
    and "parsePublicKeyMsg L msg = Inr (downKey, True, sig)"
    and "MapPublicKey piper (downstream p) downKey = (Some signr, None)"
    and "validateKey L (PublicKey signr) (sshConn_user (downstream p)) (transport (upstream p)) =
           ((ok, verr), ut)"
    and "writePacket (transport (downstream p))
           (Marshal_pubKeyOk L \<lparr>Algo = key_Type downKey, PubKey = key_Marshal downKey\<rparr>) = (werr, dt)"
  shows "(ok \<longrightarrow>
            processAuthMsg L piper p msg =
              ((None, werr),
               p\<lparr>calls := calls p @ [EvMapPublicKey downKey],
                 upstream := (upstream p)\<lparr>transport := ut\<rparr>,
                 downstream := (downstream p)\<lparr>transport := dt\<rparr>\<rparr>)
          \<and> (werr = None \<longrightarrow>
                sent dt = sent (transport (downstream p)) @
                  [Marshal_pubKeyOk L \<lparr>Algo = key_Type downKey, PubKey = key_Marshal downKey\<rparr>])
          \<and> upstream (snd (pipeAuth_body L piper p msg)) = (upstream p)\<lparr>transport := ut\<rparr>)
       \<and> (\<not> ok \<longrightarrow>
            processAuthMsg L piper p msg =
              ((Some (noneAuthMsg (sshConn_user (downstream p))), None),
               p\<lparr>calls := calls p @ [EvMapPublicKey downKey],
                 upstream := (upstream p)\<lparr>transport := ut\<rparr>\<rparr>))"
proof -
  let ?p1 = "p\<lparr>calls := calls p @ [EvMapPublicKey downKey]\<rparr>"
  have va: "validAndAck L ?p1 (PublicKey signr) downKey =
           (if ok then ((None, werr),
                        ?p1\<lparr>upstream := (upstream ?p1)\<lparr>transport := ut\<rparr>,
                          downstream := (downstream ?p1)\<lparr>transport := dt\<rparr>\<rparr>)
            else ((Some (noneAuthMsg (sshConn_user (downstream ?p1))), None),
                  ?p1\<lparr>upstream := (upstream ?p1)\<lparr>transport := ut\<rparr>\<rparr>))"
    using assms(4,5) by (intro validAndAck_result) simp_all
  have pa: "processAuthMsg L piper p msg =
           (if ok then ((None, werr),
                        p\<lparr>calls := calls p @ [EvMapPublicKey downKey],
                          upstream := (upstream p)\<lparr>transport := ut\<rparr>,
                          downstream := (downstream p)\<lparr>transport := dt\<rparr>\<rparr>)
            else ((Some (noneAuthMsg (sshConn_user (downstream p))), None),
                  p\<lparr>calls := calls p @ [EvMapPublicKey downKey],
                    upstream := (upstream p)\<lparr>transport := ut\<rparr>\<rparr>))"
    using assms(1,2,3) va by (simp add: processAuthMsg_def Let_def)
  have up: "ok \<Longrightarrow> upstream (snd (pipeAuth_body L piper p msg)) = (upstream p)\<lparr>transport := ut\<rparr>"
  proof (cases werr)
    case None
    assume ok
    with pa None have "processAuthMsg L piper p msg = ((None, None),
          p\<lparr>calls := calls p @ [EvMapPublicKey downKey],
            upstream := (upstream p)\<lparr>transport := ut\<rparr>,
            downstream := (downstream p)\<lparr>transport := dt\<rparr>\<rparr>)" by simp
    from pipeAuth_body_suppressed [OF this] show ?thesis
      by (simp split: prod.splits sum.splits)
  next
    case (Some e)
    assume ok
    with pa Some show ?thesis by (simp add: pipeAuth_body_def)
  qed
  have snt: "werr = None \<Longrightarrow> sent dt = sent (transport (downstream p)) @
                  [Marshal_pubKeyOk L \<lparr>Algo = key_Type downKey, PubKey = key_Marshal downKey\<rparr>]"
    using assms(5) writePacket_sent by simp
  show ?thesis using pa up snt by simp
qed


theorem query_answered_with_downstream_key_witness:
  "parsePublicKeyMsg (sample_lib [] [[60, 9, 9]]) sample_query =
     Inr (\<lparr>key_Type = ''ssh-rsa'', key_Marshal = [1, 2, 3]\<rparr>, True, None)
   \<and> PublicKey sample_signer = \<lparr>key_Type = ''ssh-ed25519'', key_Marshal = [9, 9]\<rparr>
   \<and> fst (validateKey (sample_lib [] [[60, 9, 9]]) (PublicKey sample_signer) ''alice''
          (transport (upstream (sample_pipe [] [[60, 9, 9]])))) = (True, None)
   \<and> fst (processAuthMsg (sample_lib [] [[60, 9, 9]]) (sample_piper sample_signer None)
          (sample_pipe [] [[60, 9, 9]]) sample_query) = (None, None)
   \<and> sent (transport (downstream (snd (processAuthMsg (sample_lib [] [[60, 9, 9]])
          (sample_piper sample_signer None) (sample_pipe [] [[60, 9, 9]]) sample_query)))) =
       [Marshal_pubKeyOk (sample_lib [] [[60, 9, 9]])
          \<lparr>Algo = ''ssh-rsa'', PubKey = [1, 2, 3]\<rparr>]
   \<and> sent (transport (upstream (snd (pipeAuth_body (sample_lib [] [[60, 9, 9]])
          (sample_piper sample_signer None) (sample_pipe [] [[60, 9, 9]]) sample_query)))) =
       [[50, 0, 9, 9]]"
proof -
  let ?L = "sample_lib [] [[60, 9, 9]]"
  let ?p = "sample_pipe [] [[60, 9, 9]]"
  let ?k = "\<lparr>key_Type = ''ssh-rsa'', key_Marshal = [1, 2, 3]\<rparr>"
  let ?ut = "snd (validateKey ?L (PublicKey sample_signer) (sshConn_user (downstream ?p))
                (transport (upstream ?p)))"
  let ?dt = "snd (writePacket (transport (downstream ?p))
                (Marshal_pubKeyOk ?L \<lparr>Algo = key_Type ?k, PubKey = key_Marshal ?k\<rparr>))"
  have h1: "Method sample_query = ''publickey''"
    by (simp add: sample_query_def)
  have h2: "parsePublicKeyMsg ?L sample_query = Inr (?k, True, None)"
    by (simp add: parsePublicKeyMsg_def sample_lib_def sample_query_def sample_parseString_def
          be32_def ssh_rsa_bytes)
  have h3: "MapPublicKey (sample_piper sample_signer None) (downstream ?p) ?k =
              (Some sample_signer, None)"
    by (simp add: sample_piper_def)
  have u: "sshConn_user (downstream ?p) = ''alice''"
    by (simp add: sample_pipe_def)
  have v: "validateKey ?L (PublicKey sample_signer) ''alice'' (transport (upstream ?p)) =
             ((True, None),
              \<lparr>sessionID = [0xB0], config_Rand = 0, incoming = [], wresults = [],
               sent = [[50, 0, 9, 9]]\<rparr>)"
    by (simp add: sample_lib_def sample_validateKey_def sample_signer_def sample_pipe_def
          sample_transport_def writePacket_def readPacket_def)
  have h4: "validateKey ?L (PublicKey sample_signer) (sshConn_user (downstream ?p))
              (transport (upstream ?p)) = ((True, None), ?ut)"
    using v u by simp
  have w: "fst (writePacket (transport (downstream ?p))
                (Marshal_pubKeyOk ?L \<lparr>Algo = key_Type ?k, PubKey = key_Marshal ?k\<rparr>)) = None"
    by (simp add: writePacket_def sample_pipe_def sample_transport_def)
  have h5: "writePacket (transport (downstream ?p))
                (Marshal_pubKeyOk ?L \<lparr>Algo = key_Type ?k, PubKey = key_Marshal ?k\<rparr>) = (None, ?dt)"
    using w by (simp add: prod_eq_iff)
  have s0: "sent (transport (downstream ?p)) = []"
    by (simp add: sample_pipe_def sample_transport_def)
  have ps: "PublicKey sample_signer = \<lparr>key_Type = ''ssh-ed25519'', key_Marshal = [9, 9]\<rparr>"
    by (simp add: sample_signer_def)
  have ut: "sent ?ut = [[50, 0, 9, 9]]"
    using v u by simp
  show ?thesis
    using query_answered_with_downstream_key [OF h1 h2 h3 h4 h5] h2 v
    by (simp add: s0 u ps)
qed

text \<open>
  C1. \<open>checkPublicKey\<close> accepts a signature exactly when its format is accepted and
  it verifies over the signed data built with the session identifier of the downstream
  transport; the upstream plays no part in it. \<open>signAgain\<close> has the signer sign the
  data built with the session identifier of the upstream transport; the session
  identifier of the downstream plays no part in it. Over a whole call of the hook,
  every \<open>Verify\<close> is over data built with the downstream session identifier and
  every \<open>Sign\<close> over data built with the upstream one.
\<close>

theorem session_ids_kept_apart:
  "fst (checkPublicKey L p msg k sg) =
     (isAcceptableAlgo L (Format sg)
        \<and> Verify L k (buildDataSignedForAuth L (sessionID (transport (downstream p))) msg
                        (bytes_of_string (key_Type k)) (key_Marshal k)) sg = None,
      None)
   \<and> fst (checkPublicKey L (p\<lparr>upstream := u'\<rparr>) msg k sg) = fst (checkPublicKey L p msg k sg)
   \<and> fst (signAgain L p msg signr k) =
       (case Sign L signr (config_Rand (transport (upstream p)))
               (buildDataSignedForAuth L (sessionID (transport (upstream p)))
                  \<lparr>User = sshConn_user (downstream p), Service = serviceSSH,
                   Method = ''publickey'', Payload = []\<rparr>
                  (bytes_of_string (key_Type (PublicKey signr)))
                  (key_Marshal (PublicKey signr))) of
          Inl err \<Rightarrow> (None, Some err)
        | Inr sign \<Rightarrow>
            (Some (snd (Unmarshal_request L
                     (Marshal_publickeyAuth L
                        \<lparr>pkUser = sshConn_user (downstream p), pkService = serviceSSH,
                         pkMethod = ''publickey'', HasSig = True,
                         Algoname = key_Type (PublicKey signr),
                         pkPubKey = key_Marshal (PublicKey signr),
                         Sig = marshalString L (Marshal_signature L sign)\<rparr>) msg)),
             None))
   \<and> fst (signAgain L
            (p\<lparr>downstream := (downstream p)\<lparr>transport :=
                 (transport (downstream p))\<lparr>sessionID := sid'\<rparr>\<rparr>\<rparr>) msg signr k) =
       fst (signAgain L p msg signr k)
   \<and> (\<exists>evs. calls (snd (processAuthMsg L piper p msg)) = calls p @ evs
         \<and> (\<forall>ev \<in> set evs.
               (\<forall>key d s. ev = EvVerify key d s \<longrightarrow>
                  d = buildDataSignedForAuth L (sessionID (transport (downstream p))) msg
                        (bytes_of_string (key_Type key)) (key_Marshal key))
             \<and> (\<forall>sr r d. ev = EvSign sr r d \<longrightarrow>
                  d = buildDataSignedForAuth L (sessionID (transport (upstream p)))
                        \<lparr>User = sshConn_user (downstream p), Service = serviceSSH,
                         Method = ''publickey'', Payload = []\<rparr>
                        (bytes_of_string (key_Type (PublicKey sr)))
                        (key_Marshal (PublicKey sr)))))"
proof (intro conjI)
  show "fst (checkPublicKey L p msg k sg) =
     (isAcceptableAlgo L (Format sg)
        \<and> Verify L k (buildDataSignedForAuth L (sessionID (transport (downstream p))) msg
                        (bytes_of_string (key_Type k)) (key_Marshal k)) sg = None,
      None)"
    by (simp add: checkPublicKey_def Let_def)
  show "fst (checkPublicKey L (p\<lparr>upstream := u'\<rparr>) msg k sg) = fst (checkPublicKey L p msg k sg)"
    by (simp add: checkPublicKey_def Let_def)
  show "fst (signAgain L p msg signr k) =
       (case Sign L signr (config_Rand (transport (upstream p)))
               (buildDataSignedForAuth L (sessionID (transport (upstream p)))
                  \<lparr>User = sshConn_user (downstream p), Service = serviceSSH,
                   Method = ''publickey'', Payload = []\<rparr>
                  (bytes_of_string (key_Type (PublicKey signr)))
                  (key_Marshal (PublicKey signr))) of
          Inl err \<Rightarrow> (None, Some err)
        | Inr sign \<Rightarrow>
            (Some (snd (Unmarshal_request L
                     (Marshal_publickeyAuth L
                        \<lparr>pkUser = sshConn_user (downstream p), pkService = serviceSSH,
                         pkMethod = ''publickey'', HasSig = True,
                         Algoname = key_Type (PublicKey signr),
                         pkPubKey = key_Marshal (PublicKey signr),
                         Sig = marshalString L (Marshal_signature L sign)\<rparr>) msg)),
             None))"
    by (simp add: signAgain_def Let_def split: sum.splits)
  show "fst (signAgain L
            (p\<lparr>downstream := (downstream p)\<lparr>transport :=
                 (transport (downstream p))\<lparr>sessionID := sid'\<rparr>\<rparr>\<rparr>) msg signr k) =
       fst (signAgain L p msg signr k)"
    by (simp add: signAgain_def Let_def split: sum.splits)
  from processAuthMsg_calls [of L piper p msg] obtain evs where
    c: "calls (snd (processAuthMsg L piper p msg)) = calls p @ evs"
    and g: "list_all (crypto_event_ok L p msg) evs" by blast
  have "\<forall>ev \<in> set evs.
               (\<forall>key d s. ev = EvVerify key d s \<longrightarrow>
                  d = buildDataSignedForAuth L (sessionID (transport (downstream p))) msg
                        (bytes_of_string (key_Type key)) (key_Marshal key))
             \<and> (\<forall>sr r d. ev = EvSign sr r d \<longrightarrow>
                  d = buildDataSignedForAuth L (sessionID (transport (upstream p)))
                        \<lparr>User = sshConn_user (downstream p), Service = serviceSSH,
                         Method = ''publickey'', Payload = []\<rparr>
                        (bytes_of_string (key_Type (PublicKey sr)))
                        (key_Marshal (PublicKey sr)))"
    using g by (auto simp: list_all_iff crypto_event_ok_def verify_blob_def resign_blob_def)
  with c show "\<exists>evs. calls (snd (processAuthMsg L piper p msg)) = calls p @ evs
         \<and> (\<forall>ev \<in> set evs.
               (\<forall>key d s. ev = EvVerify key d s \<longrightarrow>
                  d = buildDataSignedForAuth L (sessionID (transport (downstream p))) msg
                        (bytes_of_string (key_Type key)) (key_Marshal key))
             \<and> (\<forall>sr r d. ev = EvSign sr r d \<longrightarrow>
                  d = buildDataSignedForAuth L (sessionID (transport (upstream p)))
                        \<lparr>User = sshConn_user (downstream p), Service = serviceSSH,
                         Method = ''publickey'', Payload = []\<rparr>
                        (bytes_of_string (key_Type (PublicKey sr)))
                        (key_Marshal (PublicKey sr))))"
    by blast
qed

theorem session_ids_kept_apart_witness:
  "fst (checkPublicKey (sample_lib [] []) (sample_pipe [] [])
          (sample_signed [0x73,0x73,0x68,0x2d,0x72,0x73,0x61])
          \<lparr>key_Type = ''ssh-rsa'', key_Marshal = [1, 2, 3]\<rparr>
          \<lparr>Format = ''ssh-rsa'', Blob = [1,2,3, 0xD0, 50, 0x61,0x6c,0x69,0x63,0x65, 1,2,3]\<rparr>) =
     (True, None)
   \<and> sessionID (transport (downstream (sample_pipe [] []))) = [0xD0]
   \<and> sessionID (transport (upstream (sample_pipe [] []))) = [0xB0]
   \<and> Verify (sample_lib [] []) \<lparr>key_Type = ''ssh-rsa'', key_Marshal = [1, 2, 3]\<rparr>
        (buildDataSignedForAuth (sample_lib [] []) [0xB0]
           (sample_signed [0x73,0x73,0x68,0x2d,0x72,0x73,0x61])
           (bytes_of_string ''ssh-rsa'') [1, 2, 3])
        \<lparr>Format = ''ssh-rsa'', Blob = [1,2,3, 0xD0, 50, 0x61,0x6c,0x69,0x63,0x65, 1,2,3]\<rparr> \<noteq> None
   \<and> fst (signAgain (sample_lib [] []) (sample_pipe [] [])
          (sample_signed [0x73,0x73,0x68,0x2d,0x72,0x73,0x61]) sample_signer
          \<lparr>key_Type = ''ssh-rsa'', key_Marshal = [1, 2, 3]\<rparr>) =
       (Some \<lparr>User = ''alice'', Service = ''ssh-connection'', Method = ''publickey'',
              Payload = []\<rparr>, None)
   \<and> Sign (sample_lib [] []) sample_signer 0
        (buildDataSignedForAuth (sample_lib [] []) [0xB0]
           \<lparr>User = ''alice'', Service = ''ssh-connection'', Method = ''publickey'', Payload = []\<rparr>
           (bytes_of_string ''ssh-ed25519'') [9, 9]) =
       Inr \<lparr>Format = ''ssh-ed25519'', Blob = [9, 9, 0xB0, 50, 0x61,0x6c,0x69,0x63,0x65, 9, 9]\<rparr>"
proof -
  let ?L = "sample_lib [] []"
  let ?p = "sample_pipe [] []"
  let ?msg = "sample_signed [0x73,0x73,0x68,0x2d,0x72,0x73,0x61]"
  let ?k = "\<lparr>key_Type = ''ssh-rsa'', key_Marshal = [1, 2, 3]\<rparr>"
  let ?sg = "\<lparr>Format = ''ssh-rsa'', Blob = [1,2,3, 0xD0, 50, 0x61,0x6c,0x69,0x63,0x65, 1,2,3]\<rparr>"
  have sd: "sessionID (transport (downstream ?p)) = [0xD0]"
    and su: "sessionID (transport (upstream ?p)) = [0xB0]"
    and du: "sshConn_user (downstream ?p) = ''alice''"
    and rd: "config_Rand (transport (upstream ?p)) = 0"
    by (simp_all add: sample_pipe_def sample_transport_def)
  have acc: "isAcceptableAlgo ?L (Format ?sg)"
    by (simp add: sample_lib_def)
  have v1: "Verify ?L ?k (buildDataSignedForAuth ?L [0xD0] ?msg (bytes_of_string ''ssh-rsa'') [1, 2, 3])
              ?sg = None"
    by (simp add: sample_lib_def sample_signed_def alice_bytes)
  have v2: "Verify ?L ?k (buildDataSignedForAuth ?L [0xB0] ?msg (bytes_of_string ''ssh-rsa'') [1, 2, 3])
              ?sg \<noteq> None"
    by (simp add: sample_lib_def sample_signed_def alice_bytes)
  have ps: "PublicKey sample_signer = \<lparr>key_Type = ''ssh-ed25519'', key_Marshal = [9, 9]\<rparr>"
    by (simp add: sample_signer_def)
  have sn: "Sign ?L sample_signer 0
        (buildDataSignedForAuth ?L [0xB0]
           \<lparr>User = ''alice'', Service = ''ssh-connection'', Method = ''publickey'', Payload = []\<rparr>
           (bytes_of_string ''ssh-ed25519'') [9, 9]) =
       Inr \<lparr>Format = ''ssh-ed25519'', Blob = [9, 9, 0xB0, 50, 0x61,0x6c,0x69,0x63,0x65, 9, 9]\<rparr>"
    by (simp add: sample_lib_def sample_signer_def alice_bytes)
  have um: "\<And>x m. snd (Unmarshal_request ?L (Marshal_publickeyAuth ?L x) m) =
       \<lparr>User = ''alice'', Service = ''ssh-connection'', Method = ''publickey'', Payload = []\<rparr>"
    by (simp add: sample_lib_def sample_Unmarshal_request_def)
  show ?thesis
    using session_ids_kept_apart [where L = ?L and p = ?p and msg = ?msg and k = ?k and sg = ?sg
            and signr = sample_signer and piper = "sample_piper sample_signer None"]
          acc v1 v2 sn
    by (simp add: sd su du rd ps um serviceSSH_def)
qed

text \<open>
  C7, as stated, fails: in the sample session, which reaches the forwarding loop, both
  sockets start with no \<open>Close\<close> and end with two. \<open>loop\<close> runs its deferred
  \<open>pipe.Close()\<close>, and then \<open>Serve\<close> runs its deferred \<open>u.Close()\<close> and
  \<open>d.Close()\<close>.
\<close>

theorem sockets_closed_twice_counterexample:
  "closed sample_conn = 0
   \<and> returned sample_session = Some EOF
   \<and> closed (down_conn sample_session) = 2
   \<and> map_option closed (up_conn sample_session) = Some 2"
  by (simp add: sample_session_eval sample_conn_def)

text \<open>
  C7, amended. On every return path of \<open>Serve\<close> the downstream socket is closed, and
  so is the upstream socket once \<open>FindUpstream\<close> has supplied it: each exactly once on
  every path that does not enter the forwarding loop, and each exactly twice on the path
  through \<open>loop\<close>, which is entered only with an upstream.
\<close>

theorem sockets_closed_on_return:
  "closed (down_conn (Serve L piper c)) =
     closed c + (if EvForwarding \<in> set (trace (Serve L piper c)) then 2 else 1)
   \<and> (\<forall>uc. up_conn (Serve L piper c) = Some uc \<longrightarrow>
         (\<exists>d upconn upconfig. FindUpstream piper d = Inr (upconn, upconfig)
            \<and> closed uc =
                closed upconn + (if EvForwarding \<in> set (trace (Serve L piper c)) then 2 else 1)))
   \<and> (EvForwarding \<in> set (trace (Serve L piper c)) \<longrightarrow> up_conn (Serve L piper c) \<noteq> None)"
proof (cases "newDownstream L c (DownstreamConfig piper)")
  case (Inl a)
  obtain e c1 where a: "a = (e, c1)" by (cases a)
  have "c1 = Close_netConn c" using newDownstream_conn(2) Inl a by simp
  with Inl a show ?thesis by (simp add: Serve_def Close_netConn_def)
next
  case (Inr d)
  have cd: "conn d = c" using newDownstream_conn(1) Inr by simp
  obtain r d1 up evs where sd: "Serve_downstream L piper d = (r, d1, up, evs)"
    by (cases "Serve_downstream L piper d") auto
  have o: "down_conn (Serve L piper c) = Close_netConn (conn d1)"
    "up_conn (Serve L piper c) = map_option fst up"
    "trace (Serve L piper c) = evs"
    using Inr sd by (simp_all add: Serve_def Let_def Close_connection_def)
  from Serve_downstream_closes [OF sd] cd
  show ?thesis
    unfolding o
    by (cases "EvForwarding \<in> set evs")
       ((auto simp: Close_netConn_def split: option.splits)[1], blast,
        (auto simp: Close_netConn_def split: option.splits)[1], blast)
qed

theorem sockets_closed_on_return_witness:
  "EvForwarding \<in> set (trace sample_session)
   \<and> closed (down_conn sample_session) = closed sample_conn + 2
   \<and> map_option closed (up_conn sample_session) = Some (0 + 2)
   \<and> closed (down_conn (Serve (sample_lib [] [])
          ((sample_piper sample_signer None)\<lparr>DownstreamConfig := \<lparr>hostKeys = []\<rparr>\<rparr>)
          sample_conn)) = closed sample_conn + 1"
proof -
  let ?L = "sample_lib [[50, 1]] [[6], [52]]"
  let ?piper = "sample_piper sample_signer None"
  let ?unkeyed = "?piper\<lparr>DownstreamConfig := \<lparr>hostKeys = []\<rparr>\<rparr>"
  have tr: "trace (Serve ?L ?piper sample_conn) = [EvFindUpstream, EvForwarding]"
    using sample_session_eval by (simp add: sample_session_def)
  have up: "map_option closed (up_conn sample_session) = Some (0 + 2)"
    by (simp add: sample_session_eval)
  have tr0: "trace (Serve (sample_lib [] []) ?unkeyed sample_conn) = []"
    by (simp add: Serve_def newDownstream_def sample_lib_def sample_piper_def)
  from sockets_closed_on_return [of ?L ?piper sample_conn]
       sockets_closed_on_return [of "sample_lib [] []" ?unkeyed sample_conn]
  show ?thesis
    using up by (simp add: tr tr0 sample_session_def)
qed

text \<open>
  C8. A publickey request with an empty payload makes \<open>parsePublicKeyMsg\<close> return the
  parse error of \<open>USERAUTH_REQUEST\<close> before anything is read from the payload. The hook
  returns that error, and so does \<open>pipeAuth\<close> in whichever round of its loop the
  request arrives. \<open>Serve\<close> returns it as well, with the downstream socket and the
  upstream socket each closed once.
\<close>

theorem empty_publickey_payload_is_fatal:
  assumes "Method msg = ''publickey''" and "Payload msg = []"
  shows "parsePublicKeyMsg L msg = Inl (parseError msgUserAuthRequest)
       \<and> processAuthMsg L piper p msg = ((None, Some (parseError msgUserAuthRequest)), p)
       \<and> ((pipeAuth_next L piper)\<^sup>*\<^sup>* (p0, m0) (p, msg) \<longrightarrow>
            pipeAuth_loop L piper p0 m0 = (Some (parseError msgUserAuthRequest), p))
       \<and> (newDownstream L c (DownstreamConfig piper) = Inr d
            \<and> nextAuthMsg L d = (Inr req, d1)
            \<and> additionalChallenge L piper (d1\<lparr>sshConn_user := User req\<rparr>) = (None, d3, evs)
            \<and> FindUpstream piper d3 = Inr (upconn, upconfig)
            \<and> newUpstream L upconn (RemoteAddr upconn) upconfig = Inr u
            \<and> sendAuthReq L u = (None, u1)
            \<and> (pipeAuth_next L piper)\<^sup>*\<^sup>*
                  (\<lparr>upstream = u1, downstream = d3, calls = evs @ [EvFindUpstream]\<rparr>, req) (p, msg)
          \<longrightarrow> returned (Serve L piper c) = Some (parseError msgUserAuthRequest)
              \<and> closed (down_conn (Serve L piper c)) = Suc (closed c)
              \<and> map_option closed (up_conn (Serve L piper c)) = Some (Suc (closed upconn)))"
proof -
  have pp: "parsePublicKeyMsg L msg = Inl (parseError msgUserAuthRequest)"
    using assms by (simp add: parsePublicKeyMsg_def)
  have pa: "processAuthMsg L piper p msg = ((None, Some (parseError msgUserAuthRequest)), p)"
    using assms(1) pp by (simp add: processAuthMsg_def)
  have pl: "pipeAuth_loop L piper p msg = (Some (parseError msgUserAuthRequest), p)"
    using pipeAuth_loop_hook_error [OF pa] .
  have reach: "\<And>q m. (pipeAuth_next L piper)\<^sup>*\<^sup>* (q, m) (p, msg) \<Longrightarrow>
                 pipeAuth_loop L piper q m = (Some (parseError msgUserAuthRequest), p)"
    using pipeAuth_next_loop pl by fastforce
  have serve: "returned (Serve L piper c) = Some (parseError msgUserAuthRequest)
              \<and> closed (down_conn (Serve L piper c)) = Suc (closed c)
              \<and> map_option closed (up_conn (Serve L piper c)) = Some (Suc (closed upconn))"
    if s: "newDownstream L c (DownstreamConfig piper) = Inr d
            \<and> nextAuthMsg L d = (Inr req, d1)
            \<and> additionalChallenge L piper (d1\<lparr>sshConn_user := User req\<rparr>) = (None, d3, evs)
            \<and> FindUpstream piper d3 = Inr (upconn, upconfig)
            \<and> newUpstream L upconn (RemoteAddr upconn) upconfig = Inr u
            \<and> sendAuthReq L u = (None, u1)
            \<and> (pipeAuth_next L piper)\<^sup>*\<^sup>*
                  (\<lparr>upstream = u1, downstream = d3, calls = evs @ [EvFindUpstream]\<rparr>, req) (p, msg)"
  proof -
    have h6: "pipeAuth L piper \<lparr>upstream = u, downstream = d3, calls = evs @ [EvFindUpstream]\<rparr> req =
            (Some (parseError msgUserAuthRequest), p)"
      using s reach by (simp add: pipeAuth_def)
    from s have h1: "newDownstream L c (DownstreamConfig piper) = Inr d"
      and h2: "nextAuthMsg L d = (Inr req, d1)"
      and h3: "additionalChallenge L piper (d1\<lparr>sshConn_user := User req\<rparr>) = (None, d3, evs)"
      and h4: "FindUpstream piper d3 = Inr (upconn, upconfig)"
      and h5: "newUpstream L upconn (RemoteAddr upconn) upconfig = Inr u"
      by simp_all
    show ?thesis
      using Serve_on_pipeAuth_error [OF h1 h2 h3 h4 h5 h6] .
  qed
  show ?thesis
    using pp pa reach serve by blast
qed

theorem empty_publickey_payload_is_fatal_witness:
  "Method sample_empty_publickey = ''publickey'' \<and> Payload sample_empty_publickey = []
   \<and> parsePublicKeyMsg (sample_lib [[50, 3]] [[6]]) sample_empty_publickey = Inl (parseError 50)
   \<and> returned (Serve (sample_lib [[50, 3]] [[6]]) (sample_piper sample_signer None) sample_conn) =
       Some (parseError 50)
   \<and> closed (down_conn (Serve (sample_lib [[50, 3]] [[6]]) (sample_piper sample_signer None)
         sample_conn)) = 1
   \<and> map_option closed (up_conn (Serve (sample_lib [[50, 3]] [[6]])
         (sample_piper sample_signer None) sample_conn)) = Some 1"
proof -
  let ?L = "sample_lib [[50, 3]] [[6]]"
  let ?piper = "sample_piper sample_signer None"
  let ?d = "\<lparr>conn = sample_conn, transport = sample_transport [0xD0] [[50, 3]], sshConn_user = []\<rparr>"
  let ?d1 = "\<lparr>conn = sample_conn, transport = sample_transport [0xD0] [], sshConn_user = []\<rparr>"
  let ?d3 = "\<lparr>conn = sample_conn, transport = sample_transport [0xD0] [],
              sshConn_user = ''alice''\<rparr>"
  let ?upconn = "\<lparr>RemoteAddr = ''10.0.0.2:22'', closed = 0\<rparr>"
  let ?u = "\<lparr>conn = ?upconn, transport = sample_transport [0xB0] [[6]], sshConn_user = []\<rparr>"
  let ?u1 = "\<lparr>conn = ?upconn,
              transport = (sample_transport [0xB0] [])\<lparr>sent :=
                 [Marshal_serviceRequest ?L serviceUserAuth]\<rparr>,
              sshConn_user = []\<rparr>"
  let ?p = "\<lparr>upstream = ?u1, downstream = ?d3, calls = [] @ [EvFindUpstream]\<rparr>"
  have m1: "Method sample_empty_publickey = ''publickey''"
    and m2: "Payload sample_empty_publickey = []"
    and m3: "User sample_empty_publickey = ''alice''"
    by (simp_all add: sample_empty_publickey_def)
  have h1: "newDownstream ?L sample_conn (DownstreamConfig ?piper) = Inr ?d"
    by (simp add: newDownstream_def sample_lib_def sample_piper_def sample_transport_def)
  have h2: "nextAuthMsg ?L ?d = (Inr sample_empty_publickey, ?d1)"
    by (simp add: nextAuthMsg_def readPacket_def sample_lib_def sample_transport_def
          sample_Unmarshal_request_def serviceSSH_def sample_empty_publickey_def)
  have h3: "additionalChallenge ?L ?piper (?d1\<lparr>sshConn_user := User sample_empty_publickey\<rparr>) =
              (None, ?d3, [])"
    by (simp add: additionalChallenge_def sample_piper_def m3)
  have h4: "FindUpstream ?piper ?d3 = Inr (?upconn, \<lparr>cc_User = []\<rparr>)"
    by (simp add: sample_piper_def)
  have h5: "newUpstream ?L ?upconn (RemoteAddr ?upconn) \<lparr>cc_User = []\<rparr> = Inr ?u"
    by (simp add: newUpstream_def sample_lib_def sample_transport_def)
  have h6: "sendAuthReq ?L ?u = (None, ?u1)"
    by (simp add: sendAuthReq_def writePacket_def readPacket_def sample_lib_def sample_transport_def)
  have h7: "(pipeAuth_next ?L ?piper)\<^sup>*\<^sup>* (?p, sample_empty_publickey) (?p, sample_empty_publickey)"
    by simp
  have c0: "closed sample_conn = 0"
    by (simp add: sample_conn_def)
  from empty_publickey_payload_is_fatal [OF m1 m2, where L = ?L and piper = ?piper and p = ?p
         and c = sample_conn and d = ?d and req = sample_empty_publickey and ?d1.0 = ?d1
         and ?d3.0 = ?d3 and evs = "[]" and upconn = ?upconn and upconfig = "\<lparr>cc_User = []\<rparr>"
         and u = ?u and ?u1.0 = ?u1]
       h1 h2 h3 h4 h5 h6 h7
  show ?thesis
    using m1 m2 by (simp add: c0 msgUserAuthRequest_def)
qed

text \<open>
  C6. With an \<open>AdditionalChallenge\<close> callback configured: when the coercion loop ends
  normally it has read one request after another, all but the last with a method other
  than \<open>keyboard-interactive\<close> and the last with that method, and has sent the
  downstream exactly one \<open>USERAUTH_FAILURE\<close> listing only \<open>keyboard-interactive\<close> per
  request read; in every case it has sent nothing but such failures. The callback is
  called on the connection the loop leaves. In the trace of \<open>Serve\<close>, \<open>FindUpstream\<close>
  comes once, directly after the callback has returned \<open>true\<close> without error, or not
  at all; when the callback returns \<open>false\<close> or an error, \<open>Serve\<close> returns an error
  and there is neither a call of \<open>FindUpstream\<close> nor an upstream socket.
\<close>

theorem challenge_before_upstream:
  assumes "AdditionalChallenge piper = Some challenge"
  shows "(coerce L d = (None, d1) \<longrightarrow>
           (\<exists>reqs. reqs \<noteq> []
             \<and> map (request_of L) (take (length reqs) (incoming (transport d))) = map Some reqs
             \<and> incoming (transport d1) = drop (length reqs) (incoming (transport d))
             \<and> sent (transport d1) =
                 sent (transport d) @ replicate (length reqs) (kbdint_failure L)
             \<and> Method (last reqs) = ''keyboard-interactive''
             \<and> (\<forall>m \<in> set (butlast reqs). Method m \<noteq> ''keyboard-interactive'')))
       \<and> (\<exists>k. sent (transport (snd (coerce L d))) =
                 sent (transport d) @ replicate k (kbdint_failure L))
       \<and> (coerce L d = (None, d1) \<and> challenge d1 = ((ok, err), t) \<longrightarrow>
           additionalChallenge L piper d =
             (if err \<noteq> None then err else if \<not> ok then Some AdditionalChallengeFailed else None,
              d1\<lparr>transport := t\<rparr>, [EvAdditionalChallenge ok err]))
       \<and> ((trace (Serve L piper c) = [] \<and> returned (Serve L piper c) \<noteq> None
              \<and> up_conn (Serve L piper c) = None)
          \<or> (\<exists>ok' err'. trace (Serve L piper c) = [EvAdditionalChallenge ok' err']
              \<and> (\<not> ok' \<or> err' \<noteq> None)
              \<and> returned (Serve L piper c) =
                  (if err' \<noteq> None then err' else Some AdditionalChallengeFailed)
              \<and> up_conn (Serve L piper c) = None)
          \<or> (\<exists>rest. trace (Serve L piper c) =
                      EvAdditionalChallenge True None # EvFindUpstream # rest
              \<and> EvFindUpstream \<notin> set rest))"
  using coerce_until_kbdint [of L d d1] coerce_sends_failures [of L d]
    additionalChallenge_run [OF assms, of L d d1 ok err t] Serve_challenge_trace [OF assms, of L c]
  by blast

theorem challenge_before_upstream_witness:
  "AdditionalChallenge (sample_piper sample_signer (Some (sample_challenge False))) =
     Some (sample_challenge False)
   \<and> trace sample_refused_session = [EvAdditionalChallenge False None]
   \<and> returned sample_refused_session = Some AdditionalChallengeFailed
   \<and> up_conn sample_refused_session = None
   \<and> map_option sent (down_transport sample_refused_session) =
       Some [kbdint_failure (sample_lib [] []), kbdint_failure (sample_lib [] [])]"
proof -
  have a: "AdditionalChallenge (sample_piper sample_signer (Some (sample_challenge False))) =
             Some (sample_challenge False)"
    by (simp add: sample_piper_def)
  from challenge_before_upstream [OF a, where L = "sample_lib [[50, 1], [50, 1], [50, 2]] [[6], [52]]"
         and c = sample_conn]
  show ?thesis
    using a by (simp add: sample_refused_session_eval sample_refused_session_def [symmetric])
qed

text \<open>
  C10. \<open>check400\<close> returns nil if and only if the file is there to be opened and
  examined and its permission bits are exactly \<open>0400\<close>; every other mode, \<open>0600\<close>
  and \<open>0000\<close> among them, gives the error \<open>perm is too open\<close>. When the check of
  \<open>authorized_keys\<close> fails, \<open>mapPublicKeyFromUserfile\<close> returns that error with no
  signer, and the hook of a piper that uses it as \<open>MapPublicKey\<close> turns the request into
  a \<open>none\<close> request. When the check of \<open>sshpiper_upstream\<close> fails,
  \<open>findUpstreamFromUserfile\<close> returns that error, and \<open>Serve\<close> of a piper that uses it
  as \<open>FindUpstream\<close> returns it without an upstream socket.
\<close>

theorem check400_exactly_0400:
  "(check400 H file usr = None \<longleftrightarrow>
      (\<exists>f mode. os_Open H (userSpecFile H usr file) = Inr f \<and> Stat f = Inr mode
         \<and> Perm mode = 0x100))
   \<and> (os_Open H (userSpecFile H usr file) = Inr f \<and> Stat f = Inr mode \<and> Perm mode \<noteq> 0x100
        \<longrightarrow> check400 H file usr = Some (PermTooOpen (userSpecFile H usr file)))
   \<and> Perm 0x100 = 0x100 \<and> Perm 0x180 \<noteq> 0x100 \<and> Perm 0 \<noteq> 0x100
   \<and> (check400 H UserAuthorizedKeysFile (sshConn_user (downstream p)) = Some e
        \<longrightarrow> mapPublicKeyFromUserfile H (downstream p) downKey = Some (None, Some e)
          \<and> (Method msg = ''publickey''
               \<and> parsePublicKeyMsg L msg = Inr (downKey, isQuery, sig)
               \<and> Some (MapPublicKey piper (downstream p) downKey) =
                   mapPublicKeyFromUserfile H (downstream p) downKey
              \<longrightarrow> fst (processAuthMsg L piper p msg) = (Some (noneAuthMsg (User msg)), None)))
   \<and> (check400 H UserUpstreamFile (sshConn_user d3) = Some e'
        \<longrightarrow> findUpstreamFromUserfile H d3 = Inl e'
          \<and> (FindUpstream piper' = findUpstreamFromUserfile H
               \<and> newDownstream L c (DownstreamConfig piper') = Inr d
               \<and> nextAuthMsg L d = (Inr req, d1)
               \<and> additionalChallenge L piper' (d1\<lparr>sshConn_user := User req\<rparr>) = (None, d3, evs)
              \<longrightarrow> returned (Serve L piper' c) = Some e' \<and> up_conn (Serve L piper' c) = None))"
proof (intro conjI impI)
  show "check400 H file usr = None \<longleftrightarrow>
      (\<exists>f mode. os_Open H (userSpecFile H usr file) = Inr f \<and> Stat f = Inr mode
         \<and> Perm mode = 0x100)"
    by (rule check400_None_iff)
  show "Perm 0x100 = 0x100" "Perm 0x180 \<noteq> 0x100" "Perm 0 \<noteq> 0x100"
    by (simp_all add: Perm_def)
next
  assume "os_Open H (userSpecFile H usr file) = Inr f \<and> Stat f = Inr mode \<and> Perm mode \<noteq> 0x100"
  then show "check400 H file usr = Some (PermTooOpen (userSpecFile H usr file))"
    by (simp add: check400_def)
next
  assume a: "check400 H UserAuthorizedKeysFile (sshConn_user (downstream p)) = Some e"
  then show m: "mapPublicKeyFromUserfile H (downstream p) downKey = Some (None, Some e)"
    by (simp add: mapPublicKeyFromUserfile_def)
  assume b: "Method msg = ''publickey''
               \<and> parsePublicKeyMsg L msg = Inr (downKey, isQuery, sig)
               \<and> Some (MapPublicKey piper (downstream p) downKey) =
                   mapPublicKeyFromUserfile H (downstream p) downKey"
  with m have b3: "MapPublicKey piper (downstream p) downKey = (None, Some e)" by simp
  from b have b1: "Method msg = ''publickey''"
    and b2: "parsePublicKeyMsg L msg = Inr (downKey, isQuery, sig)" by simp_all
  have b4: "(None :: signer option) = None \<or> Some e \<noteq> None" by simp
  have "processAuthMsg L piper p msg =
           ((Some (noneAuthMsg (User msg)), None), p\<lparr>calls := calls p @ [EvMapPublicKey downKey]\<rparr>)"
    using processAuthMsg_unmapped [OF b1 b2 b3 b4] .
  then show "fst (processAuthMsg L piper p msg) = (Some (noneAuthMsg (User msg)), None)"
    by simp
next
  assume a: "check400 H UserUpstreamFile (sshConn_user d3) = Some e'"
  then show f: "findUpstreamFromUserfile H d3 = Inl e'"
    by (simp add: findUpstreamFromUserfile_def)
  assume b: "FindUpstream piper' = findUpstreamFromUserfile H
               \<and> newDownstream L c (DownstreamConfig piper') = Inr d
               \<and> nextAuthMsg L d = (Inr req, d1)
               \<and> additionalChallenge L piper' (d1\<lparr>sshConn_user := User req\<rparr>) = (None, d3, evs)"
  then have h1: "newDownstream L c (DownstreamConfig piper') = Inr d"
    and h2: "nextAuthMsg L d = (Inr req, d1)"
    and h3: "additionalChallenge L piper' (d1\<lparr>sshConn_user := User req\<rparr>) = (None, d3, evs)"
    and h4: "FindUpstream piper' d3 = Inl e'"
    using f by simp_all
  from Serve_on_FindUpstream_error [OF h1 h2 h3 h4]
  show "returned (Serve L piper' c) = Some e'" "up_conn (Serve L piper' c) = None"
    by simp_all
qed

theorem check400_exactly_0400_witness:
  "check400 (sample_host 0x100) UserAuthorizedKeysFile ''alice'' = None
   \<and> check400 (sample_host 0x180) UserAuthorizedKeysFile ''alice'' =
       Some (PermTooOpen ''/var/sshpiper/alice/authorized_keys'')
   \<and> check400 (sample_host 0) UserAuthorizedKeysFile ''alice'' =
       Some (PermTooOpen ''/var/sshpiper/alice/authorized_keys'')
   \<and> check400 (sample_host 0x100) UserAuthorizedKeysFile ''bob'' =
       Some (Failure ''open: no such file or directory'')
   \<and> fst (processAuthMsg (sample_lib [] []) (sample_userfile_piper 0x180) (sample_pipe [] [])
          sample_query) =
       (Some \<lparr>User = ''alice'', Service = ''ssh-connection'', Method = ''none'', Payload = []\<rparr>,
        None)
   \<and> returned (Serve (sample_lib [[50, 1]] []) (sample_userfile_piper 0x180) sample_conn) =
       Some (PermTooOpen ''/var/sshpiper/alice/sshpiper_upstream'')
   \<and> up_conn (Serve (sample_lib [[50, 1]] []) (sample_userfile_piper 0x180) sample_conn) = None"
proof -
  let ?H = "sample_host 0x180"
  let ?L = "sample_lib [[50, 1]] []"
  let ?piper = "sample_userfile_piper 0x180"
  let ?k = "\<lparr>key_Type = ''ssh-rsa'', key_Marshal = [1, 2, 3]\<rparr>"
  let ?d = "\<lparr>conn = sample_conn, transport = sample_transport [0xD0] [[50, 1]], sshConn_user = []\<rparr>"
  let ?d1 = "\<lparr>conn = sample_conn, transport = sample_transport [0xD0] [], sshConn_user = []\<rparr>"
  let ?d3 = "\<lparr>conn = sample_conn, transport = sample_transport [0xD0] [],
              sshConn_user = ''alice''\<rparr>"
  have p0: "userSpecFile (sample_host m) ''alice'' UserAuthorizedKeysFile =
              ''/var/sshpiper/alice/authorized_keys''"
    and p1: "userSpecFile (sample_host m) ''alice'' UserUpstreamFile =
              ''/var/sshpiper/alice/sshpiper_upstream''"
    and p2: "userSpecFile (sample_host m) ''bob'' UserAuthorizedKeysFile =
              ''/var/sshpiper/bob/authorized_keys''" for m
    by (simp_all add: userSpecFile_def sample_host_def UserAuthorizedKeysFile_def
          UserUpstreamFile_def)
  have o0: "os_Open (sample_host m) ''/var/sshpiper/alice/authorized_keys'' = Inr \<lparr>Stat = Inr m\<rparr>"
    and o1: "os_Open (sample_host m) ''/var/sshpiper/alice/sshpiper_upstream'' = Inr \<lparr>Stat = Inr m\<rparr>"
    and o2: "os_Open (sample_host m) ''/var/sshpiper/bob/authorized_keys'' =
               Inl (Failure ''open: no such file or directory'')" for m
    by (simp_all add: sample_host_def)
  have c400: "check400 (sample_host 0x100) UserAuthorizedKeysFile ''alice'' = None"
    by (simp add: check400_def p0 o0 Perm_def)
  have c600: "check400 ?H UserAuthorizedKeysFile ''alice'' =
                Some (PermTooOpen ''/var/sshpiper/alice/authorized_keys'')"
    by (simp add: check400_def p0 o0 Perm_def)
  have c000: "check400 (sample_host 0) UserAuthorizedKeysFile ''alice'' =
                Some (PermTooOpen ''/var/sshpiper/alice/authorized_keys'')"
    by (simp add: check400_def p0 o0 Perm_def)
  have cbob: "check400 (sample_host 0x100) UserAuthorizedKeysFile ''bob'' =
                Some (Failure ''open: no such file or directory'')"
    by (simp add: check400_def p2 o2)
  have cup: "check400 ?H UserUpstreamFile ''alice'' =
                Some (PermTooOpen ''/var/sshpiper/alice/sshpiper_upstream'')"
    by (simp add: check400_def p1 o1 Perm_def)
  have du: "sshConn_user (downstream (sample_pipe [] [])) = ''alice''"
    by (simp add: sample_pipe_def)
  have m1: "Method sample_query = ''publickey''" and m3: "User sample_query = ''alice''"
    by (simp_all add: sample_query_def)
  have m2: "parsePublicKeyMsg (sample_lib [] []) sample_query = Inr (?k, True, None)"
    by (simp add: parsePublicKeyMsg_def sample_lib_def sample_query_def sample_parseString_def
          be32_def ssh_rsa_bytes)
  have mk: "mapPublicKeyFromUserfile ?H (downstream (sample_pipe [] [])) ?k =
              Some (None, Some (PermTooOpen ''/var/sshpiper/alice/authorized_keys''))"
    by (simp add: mapPublicKeyFromUserfile_def du c600)
  have mp: "Some (MapPublicKey ?piper (downstream (sample_pipe [] [])) ?k) =
              mapPublicKeyFromUserfile ?H (downstream (sample_pipe [] [])) ?k"
    by (simp add: sample_userfile_piper_def mk)
  have f: "FindUpstream ?piper = findUpstreamFromUserfile ?H"
    by (simp add: sample_userfile_piper_def)
  have h1: "newDownstream ?L sample_conn (DownstreamConfig ?piper) = Inr ?d"
    by (simp add: newDownstream_def sample_lib_def sample_userfile_piper_def sample_transport_def)
  have h2: "nextAuthMsg ?L ?d = (Inr sample_none, ?d1)"
    by (simp add: nextAuthMsg_def readPacket_def sample_lib_def sample_transport_def
          sample_Unmarshal_request_def serviceSSH_def sample_none_def)
  have h3: "additionalChallenge ?L ?piper (?d1\<lparr>sshConn_user := User sample_none\<rparr>) =
              (None, ?d3, [])"
    by (simp add: additionalChallenge_def sample_userfile_piper_def sample_none_def)
  have u3: "sshConn_user ?d3 = ''alice''"
    by simp
  from check400_exactly_0400 [where H = ?H and p = "sample_pipe [] []" and downKey = ?k
         and msg = sample_query and L = "sample_lib [] []" and piper = ?piper
         and e = "PermTooOpen ''/var/sshpiper/alice/authorized_keys''" and isQuery = True
         and sig = None]
       c600 m1 m2 mp du
  have r1: "fst (processAuthMsg (sample_lib [] []) ?piper (sample_pipe [] []) sample_query) =
              (Some (noneAuthMsg ''alice''), None)"
    by (simp add: m3)
  from check400_exactly_0400 [where H = ?H and ?d3.0 = ?d3 and piper' = ?piper and L = ?L
         and c = sample_conn and d = ?d and req = sample_none and ?d1.0 = ?d1 and evs = "[]"
         and e' = "PermTooOpen ''/var/sshpiper/alice/sshpiper_upstream''"]
       cup f h1 h2 h3
  have r2: "returned (Serve ?L ?piper sample_conn) =
              Some (PermTooOpen ''/var/sshpiper/alice/sshpiper_upstream'')
            \<and> up_conn (Serve ?L ?piper sample_conn) = None"
    by simp
  show ?thesis
    using c400 c600 c000 cbob r1 r2 by (simp add: noneAuthMsg_def serviceSSH_def)
qed

end
